theory Spec2Isabelle
  imports Main "HOL-Library.AList"
begin

section \<open>Policy tuples\<close>

text \<open>
  A policy tuple has six string fields. The source addresses them through the position
  constants \<open>condGroupPos\<close> .. \<open>condEffectPos\<close> (\<open>p[condKindPos]\<close>); here the same names
  are the selectors of a record, so \<open>condKindPos p\<close> reads \<open>p[condKindPos]\<close> and a tuple
  of another arity cannot be built.
\<close>

record tuple =
  condGroupPos :: string
  condSubkindPos :: string
  condKindPos :: string
  condNamePos :: string
  condPermPos :: string
  condEffectPos :: string

type_synonym enforceCondition = tuple

abbreviation enforceEffect :: string where "enforceEffect \<equiv> ''allow''"
abbreviation denyEffect :: string where "denyEffect \<equiv> ''deny''"
abbreviation DefaultUser :: string where "DefaultUser \<equiv> ''pivotal''"

text \<open>The capability sets of the interfaces \<open>aclhelper.Item\<close> and \<open>aclhelper.Actor\<close>:
  the methods are pure getters, so an object is the record of what they return.\<close>

record item =
  ContainerKind :: string
  ContainerType :: string
  GetName :: string

record actor =
  IsUser :: bool
  OrgName :: string
  ACLName :: string
  ActorName :: string

section \<open>The rule store\<close>

text \<open>
  The rule store is the casbin enforcer, configured with the constant \<open>modelDefinition\<close>;
  neither is under src/. Its state is the list of policy tuples, in the order of the
  policy file, and the list of role-membership edges (member, role).
\<close>

record rule_store =
  policies :: "tuple list"
  roles :: "(string \<times> string) list"

text \<open>Modelled from the spec: \<open>GetFilteredPolicy\<close> of the Rule Store (the casbin enforcer
  is not under src/), the query by one field: the tuples whose field at the given
  position equals the value.\<close>

definition GetFilteredPolicy :: "rule_store \<Rightarrow> (tuple \<Rightarrow> string) \<Rightarrow> string \<Rightarrow> tuple list" where
  "GetFilteredPolicy st fieldIndex v = filter (\<lambda>p. fieldIndex p = v) (policies st)"

text \<open>Modelled from the spec: \<open>AddPolicy\<close> of the Rule Store (the casbin enforcer is not
  under src/). The store holds a set of tuples: a tuple that is present is not added
  again.\<close>

definition AddPolicy :: "rule_store \<Rightarrow> tuple \<Rightarrow> rule_store" where
  "AddPolicy st p = (if p \<in> set (policies st) then st else st\<lparr>policies := policies st @ [p]\<rparr>)"

text \<open>Modelled from the spec: \<open>RemovePolicy\<close> and \<open>RemovePolicySafe\<close> of the Rule Store
  (the casbin enforcer is not under src/). The store holds a set of tuples: after the
  removal the tuple is not in it.\<close>

definition RemovePolicy :: "rule_store \<Rightarrow> tuple \<Rightarrow> rule_store" where
  "RemovePolicy st p = st\<lparr>policies := removeAll p (policies st)\<rparr>"

text \<open>Modelled from the spec: the transitive role-membership matching of the Rule Store
  (the casbin role manager is not under src/). \<open>hasLinkN n g a b\<close> follows at most \<open>n\<close>
  edges of \<open>g\<close> from \<open>a\<close> to \<open>b\<close>; a path without repetition never needs more edges than
  \<open>g\<close> has.\<close>

fun hasLinkN :: "nat \<Rightarrow> (string \<times> string) list \<Rightarrow> string \<Rightarrow> string \<Rightarrow> bool" where
  "hasLinkN 0 g a b = (a = b)"
| "hasLinkN (Suc n) g a b = (a = b \<or> list_ex (\<lambda>edge. fst edge = a \<and> hasLinkN n g (snd edge) b) g)"

definition HasLink :: "(string \<times> string) list \<Rightarrow> string \<Rightarrow> string \<Rightarrow> bool" where
  "HasLink g a b = hasLinkN (length g) g a b"

text \<open>Modelled from the spec: \<open>Enforce\<close> of the Rule Store (the casbin enforcer and
  \<open>modelDefinition\<close> are not under src/), rule evaluation with transitive role-membership
  matching: a request evaluates to allow when some tuple of the store agrees with it on
  subkind, kind, name, permission and effect, and the subject of the tuple is the subject
  of the request or a role the subject belongs to.\<close>

definition matches :: "rule_store \<Rightarrow> enforceCondition \<Rightarrow> tuple \<Rightarrow> bool" where
  "matches st r p =
     (HasLink (roles st) (condGroupPos r) (condGroupPos p)
      \<and> condSubkindPos r = condSubkindPos p
      \<and> condKindPos r = condKindPos p
      \<and> condNamePos r = condNamePos p
      \<and> condPermPos r = condPermPos p
      \<and> condEffectPos r = condEffectPos p)"

definition Enforce :: "rule_store \<Rightarrow> enforceCondition \<Rightarrow> bool" where
  "Enforce st r = list_ex (matches st r) (policies st)"

section \<open>The checker and its policy persistence\<close>

text \<open>
  \<open>enforcer\<close> is the in-memory rule store \<open>c.e\<close>, \<open>org\<close> the name of the organization
  \<open>c.org\<close>. \<open>policyFile\<close> is the persisted policy (\<open>None\<close>: it cannot be read or parsed)
  and \<open>writable\<close> says whether saving succeeds. The channel and the read/write lock only
  serialize callers; the model is of one caller at a time and leaves them out.
\<close>

record Checker =
  org :: string
  enforcer :: rule_store
  policyFile :: "rule_store option"
  writable :: bool

text \<open>The errors, by their class in the error taxonomy of the spec; the source builds
  them from messages (\<open>util.Errorf\<close>). \<open>UnresolvedMember\<close> is the error of a failed
  \<open>actor.GetActor\<close> or \<open>group.Get\<close>, sent back with status 400, and \<open>Panic\<close> is a Go
  run-time panic.\<close>

datatype error =
    PolicyLoadError
  | PolicySaveError
  | InvalidPermission
  | NotAssociated
  | MalformedACLPayload
  | UnresolvedMember
  | NotFound
  | Panic

text \<open>Modelled from the spec: \<open>LoadPolicy\<close> and \<open>SavePolicy\<close> of the Rule Store (the
  casbin enforcer and its file adapter are not under src/): reload the tuples from, and
  persist them to, the policy persistence; each fails with an I/O error when the backing
  store cannot be read, or written.\<close>

definition LoadPolicy :: "Checker \<Rightarrow> error + Checker" where
  "LoadPolicy c = (case policyFile c of
                     None \<Rightarrow> Inl PolicyLoadError
                   | Some st \<Rightarrow> Inr (c\<lparr>enforcer := st\<rparr>))"

definition SavePolicy :: "Checker \<Rightarrow> error + Checker" where
  "SavePolicy c = (if writable c then Inr (c\<lparr>policyFile := Some (enforcer c)\<rparr>)
                   else Inl PolicySaveError)"

text \<open>
  What the checker asks of its other collaborators, none of them under src/: whether a
  database is configured, the keys of the \<open>association\<close> table of the data store, and the
  lookups \<open>actor.GetActor\<close> and \<open>group.Get\<close> of the organization.
\<close>

record env =
  UsingDB :: bool
  association :: "string list"
  GetActor :: "string \<Rightarrow> actor option"
  groups :: "string list"

section \<open>Permission evaluation\<close>

definition buildEnforcingSlice :: "item \<Rightarrow> string \<Rightarrow> string \<Rightarrow> enforceCondition" where
  \<comment> \<open>the second argument is \<open>member.ACLName()\<close>\<close>
  "buildEnforcingSlice item memberACLName perm =
     \<lparr>condGroupPos = memberACLName, condSubkindPos = ContainerType item,
      condKindPos = ContainerKind item, condNamePos = GetName item,
      condPermPos = perm, condEffectPos = enforceEffect\<rparr>"

definition buildDenySlice :: "item \<Rightarrow> string \<Rightarrow> enforceCondition" where
  "buildDenySlice item perm =
     \<lparr>condGroupPos = ''denyall##groups'', condSubkindPos = ContainerType item,
      condKindPos = ContainerKind item, condNamePos = GetName item,
      condPermPos = perm, condEffectPos = enforceEffect\<rparr>"

definition general :: "enforceCondition \<Rightarrow> enforceCondition" where
  "general e =
     (let g = (if condSubkindPos e = ''containers'' \<and> condKindPos e = ''containers''
               then e\<lparr>condSubkindPos := condNamePos e\<rparr> else e)
      in g\<lparr>condNamePos := ''$$default$$''\<rparr>)"

definition testForAnyPol :: "rule_store \<Rightarrow> item \<Rightarrow> string \<Rightarrow> string \<Rightarrow> bool" where
  \<comment> \<open>the third argument is \<open>doer.ACLName()\<close>; the loop returns at the first hit\<close>
  "testForAnyPol st item doerACLName perm =
     (let fi = GetFilteredPolicy st condGroupPos doerACLName in
      if list_ex (\<lambda>p. ContainerKind item = condKindPos p
                      \<and> ContainerType item = condSubkindPos p
                      \<and> GetName item = condNamePos p) fi
      then True
      else if ContainerKind item = ''groups''
      then Enforce st (buildDenySlice item perm)
      else False)"

definition isPermValid :: "rule_store \<Rightarrow> item \<Rightarrow> string \<Rightarrow> bool" where
  "isPermValid st item perm =
     (let fPass = GetFilteredPolicy st condSubkindPos (ContainerType item);
          validPerms = map condPermPos (filter (\<lambda>p. condKindPos p = ContainerKind item) fPass)
      in perm \<in> set validPerms)"

definition testAssociation :: "env \<Rightarrow> actor \<Rightarrow> string \<Rightarrow> error option" where
  \<comment> \<open>the third argument is \<open>org.Name\<close>\<close>
  "testAssociation ev doer orgName =
     (if IsUser doer then
        (if UsingDB ev then None
         else if (ActorName doer @ ''-'' @ orgName) \<in> set (association ev) then None
         else Some NotAssociated)
      else if OrgName doer \<noteq> orgName then Some NotAssociated
      else None)"

definition CheckItemPerm :: "env \<Rightarrow> Checker \<Rightarrow> item \<Rightarrow> actor \<Rightarrow> string \<Rightarrow> Checker \<times> bool \<times> error option" where
  "CheckItemPerm ev c item doer perm =
     (case LoadPolicy c of
        Inl polErr \<Rightarrow> (c, False, Some polErr)
      | Inr c1 \<Rightarrow>
          (let st = enforcer c1;
               specific = buildEnforcingSlice item (ACLName doer) perm;
               chkSucceeded =
                 (if Enforce st specific then True
                  else if \<not> testForAnyPol st item (ACLName doer) perm
                  then Enforce st (general specific)
                  else False)
           in if chkSucceeded then (c1, True, None)
              else if \<not> isPermValid st item perm then (c1, False, Some InvalidPermission)
              else (case testAssociation ev doer (org c1) of
                      Some err \<Rightarrow> (c1, False, Some err)
                    | None \<Rightarrow> (c1, False, None))))"

section \<open>Helpers of package util and of the group package\<close>

text \<open>\<open>strings.HasPrefix\<close> and \<open>strings.TrimPrefix\<close> of the Go standard library.\<close>

definition HasPrefix :: "string \<Rightarrow> string \<Rightarrow> bool" where
  "HasPrefix s pre = (take (length pre) s = pre)"

definition TrimPrefix :: "string \<Rightarrow> string \<Rightarrow> string" where
  "TrimPrefix s pre = (if HasPrefix s pre then drop (length pre) s else s)"

text \<open>Modelled from the spec: \<open>util.StringPresentInSlice\<close> (package util is not under
  src/): whether the string is an element of the slice.\<close>

definition StringPresentInSlice :: "string \<Rightarrow> string list \<Rightarrow> bool" where
  "StringPresentInSlice str sl = (str \<in> set sl)"

text \<open>Modelled from the spec: \<open>util.RemoveDupStrings\<close> (package util is not under src/):
  the list deduplicated.\<close>

definition RemoveDupStrings :: "string list \<Rightarrow> string list" where
  "RemoveDupStrings strs = remdups strs"

text \<open>Modelled from the spec: \<open>group.Get\<close> (of the group package only the SQL functions
  are under src/). A name resolves when the organization has a group of that name; the
  result is the name of the group found.\<close>

definition group_Get :: "env \<Rightarrow> string \<Rightarrow> string option" where
  "group_Get ev gr = (if gr \<in> set (groups ev) then Some gr else None)"

text \<open>Modelled from the spec: \<open>Group.ACLName\<close> (of the group package only the SQL
  functions are under src/). As a grant subject a group is written \<open>role##<groupname>\<close>.\<close>

definition groupACLName :: "string \<Rightarrow> string" where
  "groupACLName gname = ''role##'' @ gname"

section \<open>Grant reconciliation: EditFromJSON\<close>

text \<open>The decoded JSON payload, an \<open>interface{}\<close> in the source. A number is never
  looked into, so its value is kept as an integer.\<close>

datatype json =
    JNull
  | JBool bool
  | JNumber int
  | JString string
  | JArray "json list"
  | JObject "(string \<times> json) list"

text \<open>The type assertions. \<open>asMap\<close> is the type switch on \<open>map[string]interface{}\<close>;
  \<open>asSlice\<close> is \<open>aclEdit[key].([]interface{})\<close> with its \<open>ok\<close> (a missing key reads as
  nil, which is no slice); \<open>asStrings\<close> is the loop \<open>newActors[i] = v.(string)\<close>, an
  assertion without \<open>ok\<close>, which panics at the first element that is no string
  (\<open>None\<close>).\<close>

fun asMap :: "json \<Rightarrow> (string \<times> json) list option" where
  "asMap (JObject m) = Some m"
| "asMap _ = None"

fun asSlice :: "json option \<Rightarrow> json list option" where
  "asSlice (Some (JArray vs)) = Some vs"
| "asSlice _ = None"

fun asStrings :: "json list \<Rightarrow> string list option" where
  "asStrings [] = Some []"
| "asStrings (JString s # vs) = map_option ((#) s) (asStrings vs)"
| "asStrings (_ # vs) = None"

text \<open>The body of the loop over \<open>filteredItem\<close>: a current subject that is not among the
  desired ones loses its tuple; \<open>denyall##\<close> subjects are skipped.\<close>

definition removeStale :: "item \<Rightarrow> string \<Rightarrow> string list \<Rightarrow> string list \<Rightarrow> rule_store \<Rightarrow> tuple \<Rightarrow> rule_store" where
  "removeStale item perm newActors newGroups st p =
     (if condKindPos p = ContainerKind item \<and> condSubkindPos p = ContainerType item
         \<and> condPermPos p = perm
      then (let subj = condGroupPos p in
            if HasPrefix subj ''denyall##'' then st
            else if HasPrefix subj ''role##'' then
              (if \<not> StringPresentInSlice (TrimPrefix subj ''role##'') newGroups
               then RemovePolicy st p else st)
            else
              (if \<not> StringPresentInSlice subj newActors
               then RemovePolicy st p else st))
      else st)"

text \<open>The loops over \<open>newActors\<close> and \<open>newGroups\<close>: each returns at the first name that
  does not resolve, with the store as changed so far.\<close>

fun addActors :: "env \<Rightarrow> item \<Rightarrow> string \<Rightarrow> string list \<Rightarrow> rule_store \<Rightarrow> rule_store \<times> error option" where
  "addActors ev item perm [] st = (st, None)"
| "addActors ev item perm (act # rest) st =
     (case GetActor ev act of
        None \<Rightarrow> (st, Some UnresolvedMember)
      | Some a \<Rightarrow> addActors ev item perm rest (AddPolicy st (buildEnforcingSlice item (ACLName a) perm)))"

fun addGroups :: "env \<Rightarrow> item \<Rightarrow> string \<Rightarrow> string list \<Rightarrow> rule_store \<Rightarrow> rule_store \<times> error option" where
  "addGroups ev item perm [] st = (st, None)"
| "addGroups ev item perm (gr # rest) st =
     (case group_Get ev gr of
        None \<Rightarrow> (st, Some UnresolvedMember)
      | Some g \<Rightarrow> addGroups ev item perm rest (AddPolicy st (buildEnforcingSlice item (groupACLName g) perm)))"

text \<open>Everything \<open>EditFromJSON\<close> does to the in-memory store once the payload is decoded.\<close>

definition reconcile :: "env \<Rightarrow> item \<Rightarrow> string \<Rightarrow> string list \<Rightarrow> string list \<Rightarrow> rule_store \<Rightarrow> rule_store \<times> error option" where
  "reconcile ev item perm newActors newGroups st =
     (let filteredItem = GetFilteredPolicy st condNamePos (GetName item);
          st1 = foldl (removeStale item perm newActors newGroups) st filteredItem
      in case addActors ev item perm newActors st1 of
           (st2, Some err) \<Rightarrow> (st2, Some err)
         | (st2, None) \<Rightarrow>
             (let denyallp = buildDenySlice item perm in
              if length newGroups > 0 then
                (case addGroups ev item perm newGroups st2 of
                   (st3, Some err) \<Rightarrow> (st3, Some err)
                 | (st3, None) \<Rightarrow>
                     (if ContainerKind item = ''groups''
                      then (RemovePolicy st3 denyallp, None) else (st3, None)))
              else if ContainerKind item = ''groups'' then (AddPolicy st2 denyallp, None)
              else (st2, None)))"

definition EditFromJSON :: "env \<Rightarrow> Checker \<Rightarrow> item \<Rightarrow> string \<Rightarrow> json \<Rightarrow> Checker \<times> error option" where
  "EditFromJSON ev c item perm data =
     (case asMap data of
        None \<Rightarrow> (c, Some MalformedACLPayload)
      | Some dataMap \<Rightarrow>
          (case map_of dataMap perm of
             None \<Rightarrow> (c, Some MalformedACLPayload)
           | Some permData \<Rightarrow>
               (case asMap permData of
                  None \<Rightarrow> (c, Some MalformedACLPayload)
                | Some aclEdit \<Rightarrow>
                    (case LoadPolicy c of
                       Inl polErr \<Rightarrow> (c, Some polErr)
                     | Inr c1 \<Rightarrow>
                         (case asSlice (map_of aclEdit ''actors'') of
                            None \<Rightarrow> (c1, Some MalformedACLPayload)
                          | Some newActRaw \<Rightarrow>
                              (case asSlice (map_of aclEdit ''groups'') of
                                 None \<Rightarrow> (c1, Some MalformedACLPayload)
                               | Some newGroupsRaw \<Rightarrow>
                                   (case asStrings newActRaw of
                                      None \<Rightarrow> (c1, Some Panic)
                                    | Some newActors \<Rightarrow>
                                        (case asStrings newGroupsRaw of
                                           None \<Rightarrow> (c1, Some Panic)
                                         | Some newGroups \<Rightarrow>
                                             (case reconcile ev item perm newActors newGroups (enforcer c1) of
                                                (st, Some err) \<Rightarrow> (c1\<lparr>enforcer := st\<rparr>, Some err)
                                              | (st, None) \<Rightarrow>
                                                  (case SavePolicy (c1\<lparr>enforcer := st\<rparr>) of
                                                     Inl err \<Rightarrow> (c1\<lparr>enforcer := st\<rparr>, Some err)
                                                   | Inr c2 \<Rightarrow> (c2, None)))))))))))"

section \<open>Structural operations\<close>

definition RemoveItemACL :: "Checker \<Rightarrow> item \<Rightarrow> Checker \<times> error option" where
  "RemoveItemACL c item = (c, None)"

definition GetItemPolicies :: "Checker \<Rightarrow> string \<Rightarrow> string \<Rightarrow> string \<Rightarrow> Checker \<times> tuple list" where
  \<comment> \<open>the error of this reload is dropped by the source\<close>
  "GetItemPolicies c itemName itemKind itemType =
     (let c1 = (case LoadPolicy c of Inl polErr \<Rightarrow> c | Inr c' \<Rightarrow> c');
          filteredItem = GetFilteredPolicy (enforcer c1) condNamePos itemName
      in (c1, filter (\<lambda>p. condKindPos p = itemKind \<and> condSubkindPos p = itemType) filteredItem))"

definition RenameItemACL :: "Checker \<Rightarrow> item \<Rightarrow> string \<Rightarrow> Checker \<times> error option" where
  \<comment> \<open>\<open>RemovePolicySafe\<close> fails only when the store panics, which this store never does\<close>
  "RenameItemACL c item oldName =
     (case LoadPolicy c of
        Inl polErr \<Rightarrow> (c, Some polErr)
      | Inr c1 \<Rightarrow>
          (case GetItemPolicies c1 oldName (ContainerKind item) (ContainerType item) of
             (c2, oldPolicies) \<Rightarrow>
               if oldPolicies = [] then (c2, None)
               else
                 (let st1 = foldl (\<lambda>st p. AddPolicy st (p\<lparr>condNamePos := GetName item\<rparr>))
                                  (enforcer c2) oldPolicies;
                      st2 = foldl RemovePolicy st1 oldPolicies
                  in case SavePolicy (c2\<lparr>enforcer := st2\<rparr>) of
                       Inl err \<Rightarrow> (c2\<lparr>enforcer := st2\<rparr>, Some err)
                     | Inr c3 \<Rightarrow> (c3, None))))"

section \<open>ACL snapshot assembly\<close>

text \<open>
  \<open>aclhelper.ACLItem\<close> and the \<open>Perms\<close> map of \<open>aclhelper.ACL\<close>, the map as an association
  list in the order the permissions were first met. A slice is nil exactly when nothing
  was appended to it, so nil is the empty list.
\<close>

record ACLItem =
  Perm :: string
  Effect :: string
  Actors :: "string list"
  Groups :: "string list"

type_synonym ACL = "(string \<times> ACLItem) list"

definition assembleStep :: "item \<Rightarrow> (item \<Rightarrow> tuple \<Rightarrow> bool) \<Rightarrow> ACL \<Rightarrow> tuple \<Rightarrow> ACL" where
  "assembleStep item comparer tmpACL p =
     (if comparer item p then
        (let perm = condPermPos p; subj = condGroupPos p; eft = condEffectPos p in
         if eft = denyEffect then tmpACL
         else
           (let entry = (case map_of tmpACL perm of
                           None \<Rightarrow> \<lparr>Perm = perm, Effect = condEffectPos p, Actors = [], Groups = []\<rparr>
                         | Some it \<Rightarrow> it)
            in if HasPrefix subj ''role##''
               then AList.update perm (entry\<lparr>Groups := Groups entry @ [TrimPrefix subj ''role##'']\<rparr>) tmpACL
               else AList.update perm (entry\<lparr>Actors := Actors entry @ [subj]\<rparr>) tmpACL))
      else tmpACL)"

definition assembleACL :: "item \<Rightarrow> tuple list \<Rightarrow> (item \<Rightarrow> tuple \<Rightarrow> bool) \<Rightarrow> ACL" where
  "assembleACL item filtered comparer = foldl (assembleStep item comparer) [] filtered"

definition itemCompare :: "item \<Rightarrow> tuple \<Rightarrow> bool" where
  "itemCompare i pol = (condKindPos pol = ContainerKind i \<and> condSubkindPos pol = ContainerType i)"

definition genCompare :: "item \<Rightarrow> tuple \<Rightarrow> bool" where
  "genCompare i pol =
     (if ContainerKind i = ''containers'' \<and> ContainerType i = ''containers'' then False
      else condKindPos pol = ContainerKind i)"

text \<open>The override loop writes through \<open>genPerms.Perms[k]\<close>, a pointer that is nil when the
  general snapshot has no entry for \<open>k\<close>: the nil dereference is \<open>None\<close>.\<close>

fun overrideGeneral :: "ACL \<Rightarrow> ACL \<Rightarrow> ACL option" where
  "overrideGeneral [] genPerms = Some genPerms"
| "overrideGeneral ((k, v) # rest) genPerms =
     (case map_of genPerms k of
        None \<Rightarrow> None
      | Some g \<Rightarrow>
          overrideGeneral rest
            (AList.update k
               (g\<lparr>Perm := Perm v, Effect := Effect v,
                  Actors := (if Actors v \<noteq> [] then Actors v else Actors g),
                  Groups := (if Groups v \<noteq> [] then Groups v else Groups g)\<rparr>)
               genPerms))"

definition addDefaultUser :: "ACLItem \<Rightarrow> ACLItem" where
  "addDefaultUser v =
     (let acts = (if \<not> StringPresentInSlice DefaultUser (Actors v)
                  then Actors v @ [DefaultUser] else Actors v)
      in v\<lparr>Actors := RemoveDupStrings acts, Groups := RemoveDupStrings (Groups v)\<rparr>)"

definition GetItemACL :: "Checker \<Rightarrow> item \<Rightarrow> Checker \<times> (error + ACL)" where
  "GetItemACL c item =
     (case LoadPolicy c of
        Inl polErr \<Rightarrow> (c, Inl polErr)
      | Inr c1 \<Rightarrow>
          (let st = enforcer c1;
               filteredItem = GetFilteredPolicy st condNamePos (GetName item);
               filteredType = (if ContainerKind item = ''groups''
                               then GetFilteredPolicy st condNamePos ''$$default$$''
                               else GetFilteredPolicy st condSubkindPos (ContainerType item))
           in if filteredItem = [] \<and> filteredType = [] then (c1, Inl NotFound)
              else
                (let itemPerms = assembleACL item filteredItem itemCompare;
                     genPerms = assembleACL item filteredType genCompare;
                     merged = (if ContainerKind item = ''containers'' \<and> ContainerType item = ''containers''
                               then Some itemPerms
                               else overrideGeneral itemPerms genPerms)
                 in case merged of
                      None \<Rightarrow> (c1, Inl Panic)
                    | Some genPerms' \<Rightarrow> (c1, Inr (map (\<lambda>(k, v). (k, addDefaultUser v)) genPerms')))))"

section \<open>Notions of the statements and proofs\<close>

text \<open>The condition under which the removal loop of \<open>EditFromJSON\<close> drops a tuple.\<close>

definition stale :: "item \<Rightarrow> string \<Rightarrow> string list \<Rightarrow> string list \<Rightarrow> tuple \<Rightarrow> bool" where
  "stale item perm newActors newGroups p =
     (condKindPos p = ContainerKind item \<and> condSubkindPos p = ContainerType item
      \<and> condPermPos p = perm
      \<and> \<not> HasPrefix (condGroupPos p) ''denyall##''
      \<and> (if HasPrefix (condGroupPos p) ''role##''
         then TrimPrefix (condGroupPos p) ''role##'' \<notin> set newGroups
         else condGroupPos p \<notin> set newActors))"

text \<open>The desired actors and groups of a payload that passes every type assertion of
  \<open>EditFromJSON\<close>, in the order the source makes them.\<close>

definition decodePayload :: "string \<Rightarrow> json \<Rightarrow> (string list \<times> string list) option" where
  "decodePayload perm data =
     (case asMap data of None \<Rightarrow> None | Some dataMap \<Rightarrow>
      case map_of dataMap perm of None \<Rightarrow> None | Some permData \<Rightarrow>
      case asMap permData of None \<Rightarrow> None | Some aclEdit \<Rightarrow>
      case asSlice (map_of aclEdit ''actors'') of None \<Rightarrow> None | Some newActRaw \<Rightarrow>
      case asSlice (map_of aclEdit ''groups'') of None \<Rightarrow> None | Some newGroupsRaw \<Rightarrow>
      case asStrings newActRaw of None \<Rightarrow> None | Some newActors \<Rightarrow>
      case asStrings newGroupsRaw of None \<Rightarrow> None | Some newGroups \<Rightarrow> Some (newActors, newGroups))"

text \<open>What a successful \<open>reconcile\<close> makes of the set of tuples.\<close>

definition reconciled :: "env \<Rightarrow> item \<Rightarrow> string \<Rightarrow> string list \<Rightarrow> string list \<Rightarrow> tuple set \<Rightarrow> tuple set" where
  "reconciled ev item perm newActors newGroups S =
     (let S2 = (S - {p \<in> S. condNamePos p = GetName item \<and> stale item perm newActors newGroups p})
               \<union> {buildEnforcingSlice item (ACLName a) perm |a act. act \<in> set newActors \<and> GetActor ev act = Some a}
      in if newGroups \<noteq> [] then
           (let S3 = S2 \<union> (\<lambda>gr. buildEnforcingSlice item (groupACLName gr) perm) ` set newGroups
            in if ContainerKind item = ''groups'' then S3 - {buildDenySlice item perm} else S3)
         else if ContainerKind item = ''groups'' then insert (buildDenySlice item perm) S2
         else S2)"

text \<open>The store \<open>RenameItemACL\<close> saves when the old name has tuples.\<close>

definition renamed :: "rule_store \<Rightarrow> item \<Rightarrow> string \<Rightarrow> rule_store" where
  "renamed st item oldName =
     (let oldPolicies = filter (\<lambda>p. condKindPos p = ContainerKind item \<and> condSubkindPos p = ContainerType item)
                          (GetFilteredPolicy st condNamePos oldName)
      in foldl RemovePolicy
           (foldl (\<lambda>st p. AddPolicy st (p\<lparr>condNamePos := GetName item\<rparr>)) st oldPolicies)
           oldPolicies)"

text \<open>An actor, or a group, of a snapshot entry for permission \<open>k\<close> is backed by a tuple
  of \<open>ps\<close> whose effect is not \<open>deny\<close>.\<close>

definition allowActor :: "tuple set \<Rightarrow> string \<Rightarrow> string \<Rightarrow> bool" where
  "allowActor ps k a =
     (\<exists>p \<in> ps. condEffectPos p \<noteq> denyEffect \<and> condPermPos p = k \<and> condGroupPos p = a)"

definition allowGroup :: "tuple set \<Rightarrow> string \<Rightarrow> string \<Rightarrow> bool" where
  "allowGroup ps k g =
     (\<exists>p \<in> ps. condEffectPos p \<noteq> denyEffect \<and> condPermPos p = k \<and> condGroupPos p = ''role##'' @ g)"

definition entryOK :: "tuple set \<Rightarrow> string \<Rightarrow> ACLItem \<Rightarrow> bool" where
  "entryOK ps k v =
     (Effect v \<noteq> denyEffect
      \<and> (\<forall>a \<in> set (Actors v). allowActor ps k a)
      \<and> (\<forall>g \<in> set (Groups v). allowGroup ps k g))"

text \<open>The rule store, and the checker's persisted policy, with the tuples of effect
  \<open>deny\<close> taken out.\<close>

definition withoutDeny :: "rule_store \<Rightarrow> rule_store" where
  "withoutDeny st = st\<lparr>policies := filter (\<lambda>p. condEffectPos p \<noteq> denyEffect) (policies st)\<rparr>"

definition dropDeny :: "Checker \<Rightarrow> Checker" where
  "dropDeny c = c\<lparr>policyFile := map_option withoutDeny (policyFile c)\<rparr>"

section \<open>Concrete inputs\<close>

definition mkTuple :: "string \<Rightarrow> string \<Rightarrow> string \<Rightarrow> string \<Rightarrow> string \<Rightarrow> string \<Rightarrow> tuple" where
  "mkTuple subj subkind kind nm perm eft =
     \<lparr>condGroupPos = subj, condSubkindPos = subkind, condKindPos = kind,
      condNamePos = nm, condPermPos = perm, condEffectPos = eft\<rparr>"

definition ex_alice :: actor where
  "ex_alice = \<lparr>IsUser = True, OrgName = ''default'', ACLName = ''alice'', ActorName = ''alice''\<rparr>"

definition ex_env :: env where
  "ex_env = \<lparr>UsingDB = False, association = [''alice-default''],
             GetActor = (\<lambda>n. if n = ''alice'' then Some ex_alice else None),
             groups = [''ops'']\<rparr>"

definition ex_node :: item where
  "ex_node = \<lparr>ContainerKind = ''containers'', ContainerType = ''nodes'', GetName = ''node1''\<rparr>"

definition ex_admins :: item where
  "ex_admins = \<lparr>ContainerKind = ''groups'', ContainerType = ''groups'', GetName = ''admins''\<rparr>"

definition ex_checker :: "rule_store \<Rightarrow> Checker" where
  "ex_checker st = \<lparr>org = ''default'', enforcer = \<lparr>policies = [], roles = []\<rparr>,
                    policyFile = Some st, writable = True\<rparr>"

definition ex_store_role :: rule_store where
  "ex_store_role =
     \<lparr>policies = [mkTuple ''role##ops'' ''nodes'' ''containers'' ''node1'' ''read'' ''allow''],
      roles = [(''alice'', ''role##ops'')]\<rparr>"

definition ex_store_denyall :: rule_store where
  "ex_store_denyall =
     \<lparr>policies = [mkTuple ''denyall##groups'' ''groups'' ''groups'' ''admins'' ''read'' ''allow'',
                  mkTuple ''alice'' ''groups'' ''groups'' ''$$default$$'' ''read'' ''allow''],
      roles = []\<rparr>"

definition ex_store_general :: rule_store where
  "ex_store_general =
     \<lparr>policies = [mkTuple ''alice'' ''nodes'' ''containers'' ''$$default$$'' ''read'' ''allow''],
      roles = []\<rparr>"

definition ex_store_edit :: rule_store where
  "ex_store_edit =
     \<lparr>policies = [mkTuple ''bob'' ''groups'' ''groups'' ''admins'' ''update'' ''allow'',
                  mkTuple ''denyall##groups'' ''groups'' ''groups'' ''admins'' ''update'' ''allow'',
                  mkTuple ''role##old'' ''groups'' ''groups'' ''admins'' ''update'' ''allow''],
      roles = []\<rparr>"

definition ex_store_edited :: rule_store where
  "ex_store_edited =
     \<lparr>policies = [mkTuple ''alice'' ''groups'' ''groups'' ''admins'' ''update'' ''allow'',
                  mkTuple ''role##ops'' ''groups'' ''groups'' ''admins'' ''update'' ''allow''],
      roles = []\<rparr>"

definition ex_payload :: "string list \<Rightarrow> string list \<Rightarrow> json" where
  "ex_payload acts grps =
     JObject [(''update'', JObject [(''actors'', JArray (map JString acts)),
                                    (''groups'', JArray (map JString grps))])]"

definition ex_payload_bad :: json where
  "ex_payload_bad =
     JObject [(''update'', JObject [(''actors'', JArray [JNumber 1]), (''groups'', JArray [])])]"

definition ex_store_rename :: rule_store where
  "ex_store_rename =
     \<lparr>policies = [mkTuple ''alice'' ''nodes'' ''containers'' ''a'' ''read'' ''allow'',
                  mkTuple ''bob'' ''nodes'' ''containers'' ''b'' ''read'' ''allow''],
      roles = []\<rparr>"

definition ex_store_renamed :: rule_store where
  "ex_store_renamed =
     \<lparr>policies = [mkTuple ''bob'' ''nodes'' ''containers'' ''b'' ''read'' ''allow'',
                  mkTuple ''alice'' ''nodes'' ''containers'' ''c'' ''read'' ''allow''],
      roles = []\<rparr>"

definition ex_named :: "string \<Rightarrow> item" where
  "ex_named n = \<lparr>ContainerKind = ''containers'', ContainerType = ''nodes'', GetName = n\<rparr>"

definition ex_store_deny :: rule_store where
  "ex_store_deny =
     \<lparr>policies = [mkTuple ''alice'' ''nodes'' ''containers'' ''node1'' ''read'' ''allow'',
                  mkTuple ''bob'' ''nodes'' ''containers'' ''node1'' ''read'' ''deny'',
                  mkTuple ''bob'' ''nodes'' ''containers'' ''node2'' ''read'' ''allow'',
                  mkTuple ''role##ops'' ''nodes'' ''containers'' ''$$default$$'' ''read'' ''allow'',
                  mkTuple ''role##banned'' ''nodes'' ''containers'' ''$$default$$'' ''read'' ''deny''],
      roles = []\<rparr>"

definition ex_store_nodeny :: rule_store where
  "ex_store_nodeny =
     \<lparr>policies = [mkTuple ''alice'' ''nodes'' ''containers'' ''node1'' ''read'' ''allow'',
                  mkTuple ''bob'' ''nodes'' ''containers'' ''node2'' ''read'' ''allow'',
                  mkTuple ''role##ops'' ''nodes'' ''containers'' ''$$default$$'' ''read'' ''allow''],
      roles = []\<rparr>"

definition ex_read_entry :: ACLItem where
  "ex_read_entry = \<lparr>Perm = ''read'', Effect = ''allow'', Actors = [''alice'', ''pivotal''], Groups = [''ops'']\<rparr>"

section \<open>Permission evaluation: the properties\<close>

lemma hasLinkN_refl: "hasLinkN n g a a"
  by (cases n) simp_all

lemma HasLink_refl: "HasLink g a a"
  by (simp add: HasLink_def hasLinkN_refl)

lemma Enforce_member: "p \<in> set (policies st) \<Longrightarrow> Enforce st p"
  unfolding Enforce_def list_ex_iff
  by (rule bexI [of _ p]) (simp_all add: matches_def HasLink_refl)

text \<open>
  C1. When the policy holds an allow tuple for the item's type, kind and name and for the
  permission, whose subject the actor's ACL name reaches through role membership (in zero
  or more steps), \<open>CheckItemPerm\<close> returns \<open>(true, nil)\<close>, whatever else the rule set
  holds, general \<open>$$default$$\<close> rules included.
\<close>

theorem CheckItemPerm_explicit_allow:
  assumes "policyFile c = Some st"
      and "p \<in> set (policies st)"
      and "HasLink (roles st) (ACLName doer) (condGroupPos p)"
      and "condSubkindPos p = ContainerType item"
      and "condKindPos p = ContainerKind item"
      and "condNamePos p = GetName item"
      and "condPermPos p = perm"
      and "condEffectPos p = enforceEffect"
  shows "snd (CheckItemPerm ev c item doer perm) = (True, None)"
proof -
  have "matches st (buildEnforcingSlice item (ACLName doer) perm) p"
    using assms by (simp add: matches_def buildEnforcingSlice_def)
  with assms(2) have "Enforce st (buildEnforcingSlice item (ACLName doer) perm)"
    by (auto simp: Enforce_def list_ex_iff)
  with assms(1) show ?thesis
    by (simp add: CheckItemPerm_def LoadPolicy_def Let_def)
qed

theorem CheckItemPerm_explicit_allow_witness:
  "snd (CheckItemPerm ex_env (ex_checker ex_store_role) ex_node ex_alice ''read'') = (True, None)"
proof -
  let ?p = "mkTuple ''role##ops'' ''nodes'' ''containers'' ''node1'' ''read'' ''allow''"
  have h1: "policyFile (ex_checker ex_store_role) = Some ex_store_role" by code_simp
  have h2: "?p \<in> set (policies ex_store_role)" by code_simp
  have h3: "HasLink (roles ex_store_role) (ACLName ex_alice) (condGroupPos ?p)" by code_simp
  have h4: "condSubkindPos ?p = ContainerType ex_node" by code_simp
  have h5: "condKindPos ?p = ContainerKind ex_node" by code_simp
  have h6: "condNamePos ?p = GetName ex_node" by code_simp
  have h7: "condPermPos ?p = ''read''" by code_simp
  have h8: "condEffectPos ?p = enforceEffect" by code_simp
  show ?thesis
    using CheckItemPerm_explicit_allow [OF h1 h2 h3 h4 h5 h6 h7 h8, of ex_env] by simp
qed

text \<open>
  C2. For an item of kind \<open>groups\<close> whose \<open>denyall##groups\<close> tuple for the permission is
  in the policy, and an actor for whom the specific tuple does not evaluate to allow,
  \<open>CheckItemPerm\<close> returns \<open>(false, nil)\<close> once the actor is associated with the
  organization: a general rule is never consulted. The permission is valid for the
  item's kind and type because the sentinel tuple itself carries it.
\<close>

theorem CheckItemPerm_denyall_groups:
  assumes "policyFile c = Some st"
      and "ContainerKind item = ''groups''"
      and "buildDenySlice item perm \<in> set (policies st)"
      and "\<not> Enforce st (buildEnforcingSlice item (ACLName doer) perm)"
      and "testAssociation ev doer (org c) = None"
  shows "snd (CheckItemPerm ev c item doer perm) = (False, None)"
proof -
  have pin: "testForAnyPol st item (ACLName doer) perm"
    using assms(2) Enforce_member [OF assms(3)] by (simp add: testForAnyPol_def Let_def)
  have "condSubkindPos (buildDenySlice item perm) = ContainerType item"
       "condKindPos (buildDenySlice item perm) = ContainerKind item"
       "condPermPos (buildDenySlice item perm) = perm"
    by (simp_all add: buildDenySlice_def)
  with assms(3) have valid: "isPermValid st item perm"
    by (force simp: isPermValid_def GetFilteredPolicy_def Let_def)
  from assms(1,4,5) pin valid show ?thesis
    by (simp add: CheckItemPerm_def LoadPolicy_def Let_def)
qed

text \<open>The witness has a general allow rule for the actor, which would grant the
  permission if it were consulted.\<close>

theorem CheckItemPerm_denyall_groups_witness:
  "Enforce ex_store_denyall (general (buildEnforcingSlice ex_admins (ACLName ex_alice) ''read''))
   \<and> snd (CheckItemPerm ex_env (ex_checker ex_store_denyall) ex_admins ex_alice ''read'') = (False, None)"
proof -
  have h1: "policyFile (ex_checker ex_store_denyall) = Some ex_store_denyall" by code_simp
  have h2: "ContainerKind ex_admins = ''groups''" by code_simp
  have h3: "buildDenySlice ex_admins ''read'' \<in> set (policies ex_store_denyall)" by code_simp
  have h4: "\<not> Enforce ex_store_denyall (buildEnforcingSlice ex_admins (ACLName ex_alice) ''read'')"
    by code_simp
  have h5: "testAssociation ex_env ex_alice (org (ex_checker ex_store_denyall)) = None" by code_simp
  have g: "Enforce ex_store_denyall (general (buildEnforcingSlice ex_admins (ACLName ex_alice) ''read''))"
    by code_simp
  show ?thesis
    using CheckItemPerm_denyall_groups [OF h1 h2 h3 h4 h5] g by simp
qed

text \<open>
  C3, as stated, fails: the group \<open>admins\<close> has its \<open>denyall##groups\<close> tuple for \<open>read\<close>,
  alice has no tuple on the item (her only tuple is the general one), the general tuple
  evaluates to allow, and the answer is \<open>(false, nil)\<close>.
\<close>

theorem CheckItemPerm_general_counterexample:
  "GetFilteredPolicy ex_store_denyall condGroupPos (ACLName ex_alice)
     = [mkTuple ''alice'' ''groups'' ''groups'' ''$$default$$'' ''read'' ''allow'']
   \<and> \<not> Enforce ex_store_denyall (buildEnforcingSlice ex_admins (ACLName ex_alice) ''read'')
   \<and> Enforce ex_store_denyall (general (buildEnforcingSlice ex_admins (ACLName ex_alice) ''read''))
   \<and> snd (CheckItemPerm ex_env (ex_checker ex_store_denyall) ex_admins ex_alice ''read'') \<noteq> (True, None)"
  by code_simp

text \<open>
  C3, amended. When no tuple whose subject is the actor's ACL name has the item's kind,
  type and name, and, for an item of kind \<open>groups\<close>, the \<open>denyall##groups\<close> tuple for the
  item and permission does not evaluate to allow, then a general tuple that evaluates to
  allow makes \<open>CheckItemPerm\<close> return \<open>(true, nil)\<close>. The general tuple is the specific
  one with the name \<open>$$default$$\<close>; when kind and type are both \<open>containers\<close> its type is
  the item's name.
\<close>

theorem CheckItemPerm_general_fallback:
  assumes "policyFile c = Some st"
      and "\<forall>p \<in> set (policies st). condGroupPos p = ACLName doer \<longrightarrow>
             \<not> (condKindPos p = ContainerKind item \<and> condSubkindPos p = ContainerType item
                \<and> condNamePos p = GetName item)"
      and "ContainerKind item = ''groups'' \<longrightarrow> \<not> Enforce st (buildDenySlice item perm)"
      and "Enforce st (general (buildEnforcingSlice item (ACLName doer) perm))"
  shows "snd (CheckItemPerm ev c item doer perm) = (True, None)
         \<and> general (buildEnforcingSlice item (ACLName doer) perm)
             = \<lparr>condGroupPos = ACLName doer,
                condSubkindPos = (if ContainerType item = ''containers'' \<and> ContainerKind item = ''containers''
                                  then GetName item else ContainerType item),
                condKindPos = ContainerKind item, condNamePos = ''$$default$$'',
                condPermPos = perm, condEffectPos = enforceEffect\<rparr>"
proof -
  have "\<not> testForAnyPol st item (ACLName doer) perm"
    using assms(2,3)
    by (auto simp: testForAnyPol_def GetFilteredPolicy_def list_ex_iff Let_def)
  with assms(1,4) have "snd (CheckItemPerm ev c item doer perm) = (True, None)"
    by (simp add: CheckItemPerm_def LoadPolicy_def Let_def)
  then show ?thesis
    by (simp add: general_def buildEnforcingSlice_def Let_def)
qed

theorem CheckItemPerm_general_fallback_witness:
  "snd (CheckItemPerm ex_env (ex_checker ex_store_general) ex_node ex_alice ''read'') = (True, None)
   \<and> general (buildEnforcingSlice ex_node (ACLName ex_alice) ''read'')
       = mkTuple ''alice'' ''nodes'' ''containers'' ''$$default$$'' ''read'' ''allow''"
proof -
  have h1: "policyFile (ex_checker ex_store_general) = Some ex_store_general" by code_simp
  have h2: "\<forall>p \<in> set (policies ex_store_general). condGroupPos p = ACLName ex_alice \<longrightarrow>
             \<not> (condKindPos p = ContainerKind ex_node \<and> condSubkindPos p = ContainerType ex_node
                \<and> condNamePos p = GetName ex_node)" by code_simp
  have h3: "ContainerKind ex_node = ''groups'' \<longrightarrow> \<not> Enforce ex_store_general (buildDenySlice ex_node ''read'')"
    by code_simp
  have h4: "Enforce ex_store_general (general (buildEnforcingSlice ex_node (ACLName ex_alice) ''read''))"
    by code_simp
  show ?thesis
    using CheckItemPerm_general_fallback [OF h1 h2 h3 h4, of ex_env]
    by (simp add: ex_node_def ex_alice_def mkTuple_def)
qed

text \<open>
  C4. When the general tuple does not evaluate to allow and no tuple of the item's kind
  and type carries the permission, \<open>CheckItemPerm\<close> fails with \<open>InvalidPermission\<close>, for
  every actor and every environment: the association of the actor is not looked at.
  (With no tuple of that kind, type and permission the specific tuple cannot evaluate
  to allow either.)
\<close>

theorem CheckItemPerm_invalid_perm:
  assumes "policyFile c = Some st"
      and "\<not> Enforce st (general (buildEnforcingSlice item (ACLName doer) perm))"
      and "\<forall>p \<in> set (policies st). condSubkindPos p = ContainerType item
             \<and> condKindPos p = ContainerKind item \<longrightarrow> condPermPos p \<noteq> perm"
  shows "snd (CheckItemPerm ev c item doer perm) = (False, Some InvalidPermission)"
proof -
  have inv: "\<not> isPermValid st item perm"
    using assms(3) by (auto simp: isPermValid_def GetFilteredPolicy_def Let_def)
  have "\<not> Enforce st (buildEnforcingSlice item (ACLName doer) perm)"
    using assms(3) by (auto simp: Enforce_def list_ex_iff matches_def buildEnforcingSlice_def)
  with assms(1,2) inv show ?thesis
    by (simp add: CheckItemPerm_def LoadPolicy_def Let_def)
qed

text \<open>The witness asks for \<open>update\<close>, which no tuple of the store carries, once for an
  associated user and once in an environment with no association at all.\<close>

theorem CheckItemPerm_invalid_perm_witness:
  "snd (CheckItemPerm ex_env (ex_checker ex_store_general) ex_node ex_alice ''update'')
     = (False, Some InvalidPermission)
   \<and> snd (CheckItemPerm (ex_env\<lparr>association := []\<rparr>) (ex_checker ex_store_general) ex_node ex_alice ''update'')
     = (False, Some InvalidPermission)"
proof -
  have h1: "policyFile (ex_checker ex_store_general) = Some ex_store_general" by code_simp
  have h2: "\<not> Enforce ex_store_general (general (buildEnforcingSlice ex_node (ACLName ex_alice) ''update''))"
    by code_simp
  have h3: "\<forall>p \<in> set (policies ex_store_general). condSubkindPos p = ContainerType ex_node
             \<and> condKindPos p = ContainerKind ex_node \<longrightarrow> condPermPos p \<noteq> ''update''" by code_simp
  show ?thesis
    using CheckItemPerm_invalid_perm [OF h1 h2 h3] by simp
qed

section \<open>The rule store: what adding and removing do to the set of tuples\<close>

lemma set_AddPolicy [simp]: "set (policies (AddPolicy st p)) = insert p (set (policies st))"
  by (auto simp: AddPolicy_def)

lemma roles_AddPolicy [simp]: "roles (AddPolicy st p) = roles st"
  by (simp add: AddPolicy_def)

lemma set_RemovePolicy [simp]: "set (policies (RemovePolicy st p)) = set (policies st) - {p}"
  by (auto simp: RemovePolicy_def)

lemma roles_RemovePolicy [simp]: "roles (RemovePolicy st p) = roles st"
  by (simp add: RemovePolicy_def)

lemma foldl_AddPolicy_set:
  "set (policies (foldl (\<lambda>st p. AddPolicy st (f p)) st xs)) = set (policies st) \<union> f ` set xs"
  by (induction xs arbitrary: st) auto

lemma foldl_AddPolicy_roles:
  "roles (foldl (\<lambda>st p. AddPolicy st (f p)) st xs) = roles st"
  by (induction xs arbitrary: st) auto

lemma foldl_RemovePolicy_set:
  "set (policies (foldl RemovePolicy st xs)) = set (policies st) - set xs"
  by (induction xs arbitrary: st) auto

lemma foldl_RemovePolicy_roles:
  "roles (foldl RemovePolicy st xs) = roles st"
  by (induction xs arbitrary: st) auto

section \<open>Grant reconciliation: the properties\<close>

lemma removeStale_eq:
  "removeStale item perm newActors newGroups st p =
     (if stale item perm newActors newGroups p then RemovePolicy st p else st)"
  by (simp add: removeStale_def stale_def StringPresentInSlice_def Let_def)

lemma foldl_removeStale_set:
  "set (policies (foldl (removeStale item perm newActors newGroups) st xs))
     = set (policies st) - {p \<in> set xs. stale item perm newActors newGroups p}"
  by (induction xs arbitrary: st) (auto simp: removeStale_eq)

lemma foldl_removeStale_roles:
  "roles (foldl (removeStale item perm newActors newGroups) st xs) = roles st"
  by (induction xs arbitrary: st) (auto simp: removeStale_eq)

lemma addActors_err:
  "snd (addActors ev item perm acts st) = None \<longleftrightarrow> (\<forall>act \<in> set acts. GetActor ev act \<noteq> None)"
  by (induction acts arbitrary: st) (auto split: option.splits)

lemma addActors_set:
  "snd (addActors ev item perm acts st) = None \<Longrightarrow>
   set (policies (fst (addActors ev item perm acts st)))
     = set (policies st) \<union> {buildEnforcingSlice item (ACLName a) perm |a act. act \<in> set acts \<and> GetActor ev act = Some a}"
proof (induction acts arbitrary: st)
  case Nil
  then show ?case by simp
next
  case (Cons act acts)
  then show ?case by (cases "GetActor ev act"; fastforce)
qed

lemma addActors_roles:
  "roles (fst (addActors ev item perm acts st)) = roles st"
  by (induction acts arbitrary: st) (auto split: option.splits)

lemma addGroups_err:
  "snd (addGroups ev item perm grs st) = None \<longleftrightarrow> set grs \<subseteq> set (groups ev)"
  by (induction grs arbitrary: st) (auto simp: group_Get_def split: option.splits)

lemma addGroups_set:
  "snd (addGroups ev item perm grs st) = None \<Longrightarrow>
   set (policies (fst (addGroups ev item perm grs st)))
     = set (policies st) \<union> (\<lambda>gr. buildEnforcingSlice item (groupACLName gr) perm) ` set grs"
proof (induction grs arbitrary: st)
  case Nil
  then show ?case by simp
next
  case (Cons gr grs)
  then show ?case by (cases "gr \<in> set (groups ev)") (auto simp: group_Get_def)
qed

lemma addGroups_roles:
  "roles (fst (addGroups ev item perm grs st)) = roles st"
  by (induction grs arbitrary: st) (auto simp: group_Get_def split: option.splits)

lemma reconcile_err:
  "snd (reconcile ev item perm newActors newGroups st) = None \<longleftrightarrow>
     (\<forall>act \<in> set newActors. GetActor ev act \<noteq> None)
     \<and> (newGroups \<noteq> [] \<longrightarrow> set newGroups \<subseteq> set (groups ev))"
proof -
  let ?st1 = "foldl (removeStale item perm newActors newGroups) st
                (GetFilteredPolicy st condNamePos (GetName item))"
  obtain st2 e2 where a: "addActors ev item perm newActors ?st1 = (st2, e2)" by fastforce
  obtain st3 e3 where g: "addGroups ev item perm newGroups st2 = (st3, e3)" by fastforce
  have ea: "e2 = None \<longleftrightarrow> (\<forall>act \<in> set newActors. GetActor ev act \<noteq> None)"
    using addActors_err [of ev item perm newActors ?st1] a by simp
  have eg: "e3 = None \<longleftrightarrow> set newGroups \<subseteq> set (groups ev)"
    using addGroups_err [of ev item perm newGroups st2] g by simp
  show ?thesis
    using a g ea eg
    by (cases e2; cases e3) (simp_all add: reconcile_def Let_def)
qed

lemma reconcile_roles:
  "roles (fst (reconcile ev item perm newActors newGroups st)) = roles st"
proof -
  let ?st1 = "foldl (removeStale item perm newActors newGroups) st
                (GetFilteredPolicy st condNamePos (GetName item))"
  obtain st2 e2 where a: "addActors ev item perm newActors ?st1 = (st2, e2)" by fastforce
  obtain st3 e3 where g: "addGroups ev item perm newGroups st2 = (st3, e3)" by fastforce
  have r2: "roles st2 = roles st"
    using addActors_roles [of ev item perm newActors ?st1] a
    by (simp add: foldl_removeStale_roles)
  have r3: "roles st3 = roles st"
    using addGroups_roles [of ev item perm newGroups st2] g r2 by simp
  show ?thesis
    using a g r2 r3
    by (cases e2; cases e3) (simp_all add: reconcile_def Let_def)
qed

lemma reconcile_set:
  assumes "snd (reconcile ev item perm newActors newGroups st) = None"
  shows "set (policies (fst (reconcile ev item perm newActors newGroups st)))
           = reconciled ev item perm newActors newGroups (set (policies st))"
proof -
  let ?st1 = "foldl (removeStale item perm newActors newGroups) st
                (GetFilteredPolicy st condNamePos (GetName item))"
  obtain st2 e2 where a: "addActors ev item perm newActors ?st1 = (st2, e2)" by fastforce
  obtain st3 e3 where g: "addGroups ev item perm newGroups st2 = (st3, e3)" by fastforce
  from assms a have e2: "e2 = None"
    by (cases e2) (simp_all add: reconcile_def Let_def)
  have s1: "set (policies ?st1)
              = set (policies st) - {p \<in> set (policies st). condNamePos p = GetName item
                                       \<and> stale item perm newActors newGroups p}"
    by (auto simp: foldl_removeStale_set GetFilteredPolicy_def)
  have s2: "set (policies st2) = set (policies ?st1)
              \<union> {buildEnforcingSlice item (ACLName a) perm |a act. act \<in> set newActors \<and> GetActor ev act = Some a}"
    using addActors_set [of ev item perm newActors ?st1] a e2 by simp
  show ?thesis
  proof (cases "newGroups = []")
    case True
    with a e2 s1 s2 show ?thesis
      by (simp add: reconcile_def reconciled_def Let_def)
  next
    case False
    with assms a e2 g have e3: "e3 = None"
      by (cases e3) (simp_all add: reconcile_def Let_def)
    have s3: "set (policies st3) = set (policies st2)
                \<union> (\<lambda>gr. buildEnforcingSlice item (groupACLName gr) perm) ` set newGroups"
      using addGroups_set [of ev item perm newGroups st2] g e3 by simp
    from False a e2 g e3 s1 s2 s3 show ?thesis
      by (simp add: reconcile_def reconciled_def Let_def)
  qed
qed

lemma stale_deny: "\<not> stale item perm newActors newGroups (buildDenySlice item perm)"
  by (simp add: stale_def buildDenySlice_def HasPrefix_def)

lemma reconciled_idem:
  "reconciled ev item perm newActors newGroups (reconciled ev item perm newActors newGroups S)
     = reconciled ev item perm newActors newGroups S"
  unfolding reconciled_def Let_def
  using stale_deny [of item perm newActors newGroups]
  by (cases "newGroups = []"; cases "ContainerKind item = ''groups''") (simp_all; blast)+

lemma EditFromJSON_ok_iff:
  "EditFromJSON ev c item perm data = (c', None) \<longleftrightarrow>
     (\<exists>newActors newGroups st.
        decodePayload perm data = Some (newActors, newGroups)
        \<and> policyFile c = Some st \<and> writable c
        \<and> snd (reconcile ev item perm newActors newGroups st) = None
        \<and> c' = c\<lparr>enforcer := fst (reconcile ev item perm newActors newGroups st),
                  policyFile := Some (fst (reconcile ev item perm newActors newGroups st))\<rparr>)"
  unfolding EditFromJSON_def decodePayload_def LoadPolicy_def SavePolicy_def
  by (auto split: option.splits sum.splits prod.splits)

lemma asStrings_map_JString: "asStrings (map JString xs) = Some xs"
  by (induction xs) simp_all

text \<open>When a call succeeds: the payload passes the type assertions, its actors resolve,
  its groups (when there are any) resolve, and the policy can be read and written.\<close>

lemma EditFromJSON_succeeds:
  assumes "decodePayload perm data = Some (newActors, newGroups)"
      and "policyFile c = Some st" and "writable c"
      and "\<forall>act \<in> set newActors. GetActor ev act \<noteq> None"
      and "newGroups \<noteq> [] \<longrightarrow> set newGroups \<subseteq> set (groups ev)"
  shows "\<exists>c1. EditFromJSON ev c item perm data = (c1, None)"
proof -
  have "snd (reconcile ev item perm newActors newGroups st) = None"
    using assms(4,5) by (simp add: reconcile_err)
  with assms(1,2,3) show ?thesis
    unfolding EditFromJSON_ok_iff by blast
qed

text \<open>
  C5. \<open>EditFromJSON\<close> is idempotent. When a call returns nil (the payload is well formed,
  its actors and groups resolve, the policy loads and saves), the same call on the state
  it leaves returns nil again, and the rule set after it has the same tuples and the same
  role edges as before it, in memory and as persisted.
\<close>

theorem EditFromJSON_idempotent:
  assumes "EditFromJSON ev c item perm data = (c1, None)"
  shows "\<exists>c2. EditFromJSON ev c1 item perm data = (c2, None)
              \<and> set (policies (enforcer c2)) = set (policies (enforcer c1))
              \<and> roles (enforcer c2) = roles (enforcer c1)
              \<and> policyFile c1 = Some (enforcer c1)
              \<and> policyFile c2 = Some (enforcer c2)"
proof -
  from assms obtain newActors newGroups st where
    d: "decodePayload perm data = Some (newActors, newGroups)" and
    f: "policyFile c = Some st" and w: "writable c" and
    ok: "snd (reconcile ev item perm newActors newGroups st) = None" and
    c1: "c1 = c\<lparr>enforcer := fst (reconcile ev item perm newActors newGroups st),
                policyFile := Some (fst (reconcile ev item perm newActors newGroups st))\<rparr>"
    unfolding EditFromJSON_ok_iff by blast
  let ?st1 = "fst (reconcile ev item perm newActors newGroups st)"
  let ?st2 = "fst (reconcile ev item perm newActors newGroups ?st1)"
  let ?c2 = "c1\<lparr>enforcer := ?st2, policyFile := Some ?st2\<rparr>"
  have ok2: "snd (reconcile ev item perm newActors newGroups ?st1) = None"
    using ok by (simp add: reconcile_err)
  have f1: "policyFile c1 = Some ?st1" and w1: "writable c1" and e1: "enforcer c1 = ?st1"
    using c1 w by simp_all
  have run2: "EditFromJSON ev c1 item perm data = (?c2, None)"
    unfolding EditFromJSON_ok_iff using d f1 w1 ok2 by blast
  have "set (policies ?st2) = set (policies ?st1)"
    by (simp add: reconcile_set [OF ok] reconcile_set [OF ok2] reconciled_idem)
  moreover have "roles ?st2 = roles ?st1"
    by (simp add: reconcile_roles)
  ultimately show ?thesis
    using run2 f1 e1 by auto
qed

theorem EditFromJSON_idempotent_witness:
  "EditFromJSON ex_env (ex_checker ex_store_edit) ex_admins ''update'' (ex_payload [''alice''] [''ops''])
     = ((ex_checker ex_store_edited)\<lparr>enforcer := ex_store_edited\<rparr>, None)
   \<and> (\<exists>c2. EditFromJSON ex_env ((ex_checker ex_store_edited)\<lparr>enforcer := ex_store_edited\<rparr>)
               ex_admins ''update'' (ex_payload [''alice''] [''ops'']) = (c2, None)
            \<and> set (policies (enforcer c2)) = set (policies ex_store_edited)
            \<and> policyFile c2 = Some (enforcer c2))"
proof -
  have h: "EditFromJSON ex_env (ex_checker ex_store_edit) ex_admins ''update'' (ex_payload [''alice''] [''ops''])
             = ((ex_checker ex_store_edited)\<lparr>enforcer := ex_store_edited\<rparr>, None)"
    by code_simp
  show ?thesis
    using EditFromJSON_idempotent [OF h] h by auto
qed

text \<open>
  C6. For an item of kind \<open>groups\<close> and a call of \<open>EditFromJSON\<close> that returns nil: when
  the desired groups are not empty, the rule set it leaves does not hold the sentinel
  tuple (subject \<open>denyall##groups\<close>, the item's type, kind and name, the permission,
  effect \<open>allow\<close>) and holds, for every desired group, the tuple of subject
  \<open>role##<group>\<close> with the item's type, kind and name, the permission and effect
  \<open>allow\<close>; when they are empty, it holds the sentinel tuple. The rule set is the
  persisted one.
\<close>

theorem EditFromJSON_group_sentinel:
  assumes "ContainerKind item = ''groups''"
      and "data = JObject dataMap"
      and "map_of dataMap perm = Some (JObject aclEdit)"
      and "map_of aclEdit ''groups'' = Some (JArray (map JString newGroups))"
      and "EditFromJSON ev c item perm data = (c', None)"
  shows "(newGroups \<noteq> [] \<longrightarrow>
            \<lparr>condGroupPos = ''denyall##groups'', condSubkindPos = ContainerType item,
             condKindPos = ''groups'', condNamePos = GetName item,
             condPermPos = perm, condEffectPos = ''allow''\<rparr> \<notin> set (policies (enforcer c'))
            \<and> (\<forall>gr \<in> set newGroups.
                  \<lparr>condGroupPos = ''role##'' @ gr, condSubkindPos = ContainerType item,
                   condKindPos = ''groups'', condNamePos = GetName item,
                   condPermPos = perm, condEffectPos = ''allow''\<rparr> \<in> set (policies (enforcer c'))))
         \<and> (newGroups = [] \<longrightarrow>
            \<lparr>condGroupPos = ''denyall##groups'', condSubkindPos = ContainerType item,
             condKindPos = ''groups'', condNamePos = GetName item,
             condPermPos = perm, condEffectPos = ''allow''\<rparr> \<in> set (policies (enforcer c')))
         \<and> policyFile c' = Some (enforcer c')"
proof -
  from assms(5) obtain newActors G st where
    d: "decodePayload perm data = Some (newActors, G)" and
    ok: "snd (reconcile ev item perm newActors G st) = None" and
    c': "c' = c\<lparr>enforcer := fst (reconcile ev item perm newActors G st),
                policyFile := Some (fst (reconcile ev item perm newActors G st))\<rparr>"
    unfolding EditFromJSON_ok_iff by blast
  from d assms(2,3,4) have G: "G = newGroups"
    by (auto simp: decodePayload_def asStrings_map_JString split: option.splits)
  have e: "set (policies (enforcer c'))
             = reconciled ev item perm newActors newGroups (set (policies st))"
    using c' G reconcile_set [OF ok] by simp
  have ne: "\<And>gr. buildEnforcingSlice item (''role##'' @ gr) perm \<noteq> buildDenySlice item perm"
    by (simp add: buildEnforcingSlice_def buildDenySlice_def)
  have ds: "\<lparr>condGroupPos = ''denyall##groups'', condSubkindPos = ContainerType item,
             condKindPos = ''groups'', condNamePos = GetName item,
             condPermPos = perm, condEffectPos = ''allow''\<rparr> = buildDenySlice item perm"
    using assms(1) by (simp add: buildDenySlice_def)
  have es: "\<And>gr. \<lparr>condGroupPos = ''role##'' @ gr, condSubkindPos = ContainerType item,
                   condKindPos = ''groups'', condNamePos = GetName item,
                   condPermPos = perm, condEffectPos = ''allow''\<rparr>
                 = buildEnforcingSlice item (''role##'' @ gr) perm"
    using assms(1) by (simp add: buildEnforcingSlice_def)
  show ?thesis
    unfolding ds es
    using e ne assms(1) c'
    by (auto simp: reconciled_def Let_def groupACLName_def)
qed

text \<open>The witness is the scenario of the spec (the group \<open>admins\<close> has the sentinel for
  \<open>update\<close>, the desired groups are \<open>ops\<close>), and then the same edit with no group.\<close>

theorem EditFromJSON_group_sentinel_witness:
  "\<lparr>condGroupPos = ''denyall##groups'', condSubkindPos = ''groups'', condKindPos = ''groups'',
    condNamePos = ''admins'', condPermPos = ''update'', condEffectPos = ''allow''\<rparr>
     \<in> set (policies ex_store_edit)
   \<and> \<lparr>condGroupPos = ''denyall##groups'', condSubkindPos = ''groups'', condKindPos = ''groups'',
      condNamePos = ''admins'', condPermPos = ''update'', condEffectPos = ''allow''\<rparr>
       \<notin> set (policies ex_store_edited)
   \<and> \<lparr>condGroupPos = ''role##ops'', condSubkindPos = ''groups'', condKindPos = ''groups'',
      condNamePos = ''admins'', condPermPos = ''update'', condEffectPos = ''allow''\<rparr>
       \<in> set (policies ex_store_edited)
   \<and> \<lparr>condGroupPos = ''denyall##groups'', condSubkindPos = ''groups'', condKindPos = ''groups'',
      condNamePos = ''admins'', condPermPos = ''update'', condEffectPos = ''allow''\<rparr>
       \<in> set (policies (enforcer (fst (EditFromJSON ex_env (ex_checker ex_store_edited) ex_admins ''update''
                                           (ex_payload [''alice''] [])))))"
proof -
  let ?inner = "\<lambda>grps. [(''actors'', JArray (map JString [''alice''])), (''groups'', JArray (map JString grps))]"
  let ?c = "(ex_checker ex_store_edited)\<lparr>enforcer := ex_store_edited\<rparr>"
  let ?c' = "fst (EditFromJSON ex_env (ex_checker ex_store_edited) ex_admins ''update'' (ex_payload [''alice''] []))"
  have k: "ContainerKind ex_admins = ''groups''" by code_simp
  have d: "\<And>grps. ex_payload [''alice''] grps = JObject [(''update'', JObject (?inner grps))]"
    by (simp add: ex_payload_def)
  have m: "\<And>grps. map_of [(''update'', JObject (?inner grps))] ''update'' = Some (JObject (?inner grps))"
    by simp
  have g: "\<And>grps. map_of (?inner grps) ''groups'' = Some (JArray (map JString grps))"
    by simp
  have r1: "EditFromJSON ex_env (ex_checker ex_store_edit) ex_admins ''update'' (ex_payload [''alice''] [''ops''])
              = (?c, None)"
    by code_simp
  have r2: "EditFromJSON ex_env (ex_checker ex_store_edited) ex_admins ''update'' (ex_payload [''alice''] [])
              = (?c', None)"
    by code_simp
  have s: "\<lparr>condGroupPos = ''denyall##groups'', condSubkindPos = ''groups'', condKindPos = ''groups'',
             condNamePos = ''admins'', condPermPos = ''update'', condEffectPos = ''allow''\<rparr>
             \<in> set (policies ex_store_edit)" by code_simp
  have t: "ContainerType ex_admins = ''groups''" and n: "GetName ex_admins = ''admins''"
    by code_simp+
  show ?thesis
    using EditFromJSON_group_sentinel [OF k d m g r1] EditFromJSON_group_sentinel [OF k d m g r2] s
    unfolding t n by simp
qed

text \<open>The shapes the source checks: a payload that is no map, that lacks the
  permission, or whose entry for the permission is no map fails before the policy is
  loaded; an \<open>actors\<close> or \<open>groups\<close> field that is no list fails after the reload and
  before any tuple is added or removed.\<close>

lemma EditFromJSON_malformed_outer:
  assumes "asMap data = None
           \<or> (\<exists>dataMap. asMap data = Some dataMap
                \<and> (map_of dataMap perm = None
                   \<or> (\<exists>permData. map_of dataMap perm = Some permData \<and> asMap permData = None)))"
  shows "EditFromJSON ev c item perm data = (c, Some MalformedACLPayload)"
  using assms by (auto simp: EditFromJSON_def)

lemma EditFromJSON_malformed_fields:
  assumes "asMap data = Some dataMap" and "map_of dataMap perm = Some permData"
      and "asMap permData = Some aclEdit" and "policyFile c = Some st"
      and "asSlice (map_of aclEdit ''actors'') = None \<or> asSlice (map_of aclEdit ''groups'') = None"
  shows "EditFromJSON ev c item perm data = (c\<lparr>enforcer := st\<rparr>, Some MalformedACLPayload)"
  using assms by (auto simp: EditFromJSON_def LoadPolicy_def split: option.splits)

text \<open>
  C7 fails on the code for a list with an element that is no string: with the payload
  \<open>{"update": {"actors": [1], "groups": []}}\<close> the unchecked assertion \<open>v.(string)\<close>
  panics, so \<open>EditFromJSON\<close> returns no structural-validation error. The policy has been
  reloaded and no tuple has been added or removed.
\<close>

theorem EditFromJSON_nonstring_element_panics:
  "EditFromJSON ex_env (ex_checker ex_store_edit) ex_admins ''update'' ex_payload_bad
     = ((ex_checker ex_store_edit)\<lparr>enforcer := ex_store_edit\<rparr>, Some Panic)"
  by code_simp

section \<open>Structural operations: the properties\<close>

lemma renamed_set:
  "set (policies (renamed st item oldName))
     = (set (policies st)
        \<union> (\<lambda>p. p\<lparr>condNamePos := GetName item\<rparr>) `
            {p \<in> set (policies st). condNamePos p = oldName \<and> condKindPos p = ContainerKind item
                                      \<and> condSubkindPos p = ContainerType item})
       - {p \<in> set (policies st). condNamePos p = oldName \<and> condKindPos p = ContainerKind item
                                      \<and> condSubkindPos p = ContainerType item}"
proof -
  have "set (filter (\<lambda>p. condKindPos p = ContainerKind item \<and> condSubkindPos p = ContainerType item)
               (GetFilteredPolicy st condNamePos oldName))
        = {p \<in> set (policies st). condNamePos p = oldName \<and> condKindPos p = ContainerKind item
                                      \<and> condSubkindPos p = ContainerType item}"
    by (auto simp: GetFilteredPolicy_def)
  then show ?thesis
    by (simp add: renamed_def Let_def foldl_RemovePolicy_set foldl_AddPolicy_set)
qed

lemma renamed_roles: "roles (renamed st item oldName) = roles st"
  by (simp add: renamed_def Let_def foldl_RemovePolicy_roles foldl_AddPolicy_roles)

lemma RenameItemACL_loaded:
  assumes "policyFile c = Some st"
  shows "RenameItemACL c item oldName =
           (if filter (\<lambda>p. condKindPos p = ContainerKind item \<and> condSubkindPos p = ContainerType item)
                 (GetFilteredPolicy st condNamePos oldName) = []
            then (c\<lparr>enforcer := st\<rparr>, None)
            else if writable c
            then (c\<lparr>enforcer := renamed st item oldName, policyFile := Some (renamed st item oldName)\<rparr>, None)
            else (c\<lparr>enforcer := renamed st item oldName\<rparr>, Some PolicySaveError))"
  using assms
  by (simp add: RenameItemACL_def GetItemPolicies_def LoadPolicy_def SavePolicy_def renamed_def Let_def)

lemma GetItemPolicies_set:
  assumes "policyFile c = Some st"
  shows "set (snd (GetItemPolicies c n k t))
           = {p \<in> set (policies st). condNamePos p = n \<and> condKindPos p = k \<and> condSubkindPos p = t}"
  using assms by (auto simp: GetItemPolicies_def LoadPolicy_def GetFilteredPolicy_def Let_def)

lemma roundtrip_sets:
  assumes "G = A" and "S \<inter> F = {}" and "A \<subseteq> S" and "A \<inter> F = {}"
  shows "(((S \<union> F) - A) \<union> G) - F = S"
  using assms by blast

text \<open>
  C8, as stated, fails: when the new name already has tuples of the item's kind and type,
  renaming \<open>a\<close> to \<open>b\<close> merges the two sets and renaming \<open>b\<close> back to \<open>a\<close> moves all of
  them. Both calls return nil; the tuples of \<open>a\<close> were alice's and are now bob's and
  alice's.
\<close>

theorem RenameItemACL_roundtrip_counterexample:
  "snd (RenameItemACL (ex_checker ex_store_rename) (ex_named ''b'') ''a'') = None
   \<and> snd (RenameItemACL (fst (RenameItemACL (ex_checker ex_store_rename) (ex_named ''b'') ''a''))
                         (ex_named ''a'') ''b'') = None
   \<and> snd (GetItemPolicies (ex_checker ex_store_rename) ''a'' ''containers'' ''nodes'')
       = [mkTuple ''alice'' ''nodes'' ''containers'' ''a'' ''read'' ''allow'']
   \<and> snd (GetItemPolicies
            (fst (RenameItemACL (fst (RenameItemACL (ex_checker ex_store_rename) (ex_named ''b'') ''a''))
                                (ex_named ''a'') ''b''))
            ''a'' ''containers'' ''nodes'')
       = [mkTuple ''bob'' ''nodes'' ''containers'' ''a'' ''read'' ''allow'',
          mkTuple ''alice'' ''nodes'' ''containers'' ''a'' ''read'' ''allow'']"
  by code_simp

text \<open>
  C8, amended. When the persisted rule set holds no tuple of the item's kind and type
  under the new name, and renaming from the old name to the new one returns nil, then
  renaming back returns nil and the persisted rule set has the tuples and role edges it
  had at the start; so has the set of tuples \<open>GetItemPolicies\<close> finds under the old name.
\<close>

theorem RenameItemACL_roundtrip:
  assumes f: "policyFile c = Some st"
      and nc: "\<forall>p \<in> set (policies st).
                 \<not> (condNamePos p = GetName item \<and> condKindPos p = ContainerKind item
                    \<and> condSubkindPos p = ContainerType item)"
      and r1: "RenameItemACL c item oldName = (c1, None)"
  shows "\<exists>c2 st2. RenameItemACL c1 (item\<lparr>GetName := oldName\<rparr>) (GetName item) = (c2, None)
           \<and> policyFile c2 = Some st2
           \<and> set (policies st2) = set (policies st)
           \<and> roles st2 = roles st
           \<and> set (snd (GetItemPolicies c2 oldName (ContainerKind item) (ContainerType item)))
               = set (snd (GetItemPolicies c oldName (ContainerKind item) (ContainerType item)))"
proof -
  let ?undo = "item\<lparr>GetName := oldName\<rparr>"
  let ?sel = "\<lambda>p. condKindPos p = ContainerKind item \<and> condSubkindPos p = ContainerType item"
  let ?old = "filter ?sel (GetFilteredPolicy st condNamePos oldName)"
  let ?O = "{p \<in> set (policies st). condNamePos p = oldName \<and> condKindPos p = ContainerKind item
                                      \<and> condSubkindPos p = ContainerType item}"
  have setO: "set ?old = ?O" by (auto simp: GetFilteredPolicy_def)
  have goal: "\<exists>c2 st2. RenameItemACL c1 ?undo (GetName item) = (c2, None)
           \<and> policyFile c2 = Some st2 \<and> set (policies st2) = set (policies st) \<and> roles st2 = roles st"
  proof (cases "?old = []")
    case True
    with r1 f have c1: "c1 = c\<lparr>enforcer := st\<rparr>"
      by (simp add: RenameItemACL_loaded)
    then have f1: "policyFile c1 = Some st" using f by simp
    have "filter (\<lambda>p. condKindPos p = ContainerKind ?undo \<and> condSubkindPos p = ContainerType ?undo)
            (GetFilteredPolicy st condNamePos (GetName item)) = []"
      using nc by (auto simp: GetFilteredPolicy_def filter_empty_conv)
    then have "RenameItemACL c1 ?undo (GetName item) = (c1\<lparr>enforcer := st\<rparr>, None)"
      using RenameItemACL_loaded [OF f1, of ?undo "GetName item"] by simp
    with f1 show ?thesis by simp
  next
    case False
    let ?st1 = "renamed st item oldName"
    from False r1 f have w: "writable c" and c1: "c1 = c\<lparr>enforcer := ?st1, policyFile := Some ?st1\<rparr>"
      by (auto simp: RenameItemACL_loaded split: if_splits)
    have f1: "policyFile c1 = Some ?st1" and w1: "writable c1" using c1 w by simp_all
    define S where "S = set (policies st)"
    define A where "A = {p \<in> S. condNamePos p = oldName \<and> condKindPos p = ContainerKind item
                                      \<and> condSubkindPos p = ContainerType item}"
    define F where "F = (\<lambda>p. p\<lparr>condNamePos := GetName item\<rparr>) ` A"
    have setA: "set ?old = A" using setO by (simp add: A_def S_def)
    from False setA obtain q where q: "q \<in> A" by (cases ?old) auto
    with nc have neq: "oldName \<noteq> GetName item" by (auto simp: A_def S_def)
    have s1: "set (policies ?st1) = (S \<union> F) - A"
      unfolding F_def A_def S_def by (rule renamed_set)
    have disj: "S \<inter> F = {}"
      using nc by (auto simp: F_def A_def S_def)
    have sub: "A \<subseteq> S" by (auto simp: A_def)
    have disj2: "A \<inter> F = {}"
      using neq by (auto simp: F_def A_def)
    have Fprop: "\<And>p. p \<in> F \<Longrightarrow> condNamePos p = GetName item \<and> condKindPos p = ContainerKind item
                                      \<and> condSubkindPos p = ContainerType item"
      by (auto simp: F_def A_def)
    have Sprop: "\<And>p. p \<in> S \<Longrightarrow> \<not> (condNamePos p = GetName item \<and> condKindPos p = ContainerKind item
                                      \<and> condSubkindPos p = ContainerType item)"
      using nc by (simp add: S_def)
    have N: "{p \<in> (S \<union> F) - A. condNamePos p = GetName item \<and> condKindPos p = ContainerKind item
                                      \<and> condSubkindPos p = ContainerType item} = F"
      using Fprop Sprop disj2 by blast
    let ?new = "filter (\<lambda>p. condKindPos p = ContainerKind ?undo \<and> condSubkindPos p = ContainerType ?undo)
                  (GetFilteredPolicy ?st1 condNamePos (GetName item))"
    have setN: "set ?new = F"
      using N by (auto simp: GetFilteredPolicy_def s1)
    have "F \<noteq> {}" using q by (auto simp: F_def)
    with setN have ne: "?new \<noteq> []" by (metis empty_set)
    let ?st2 = "renamed ?st1 ?undo (GetName item)"
    have r2: "RenameItemACL c1 ?undo (GetName item)
                = (c1\<lparr>enforcer := ?st2, policyFile := Some ?st2\<rparr>, None)"
      using RenameItemACL_loaded [OF f1, of ?undo "GetName item"] ne w1 by simp
    have s2: "set (policies ?st2) = (((S \<union> F) - A) \<union> (\<lambda>p. p\<lparr>condNamePos := oldName\<rparr>) ` F) - F"
      using renamed_set [of ?st1 ?undo "GetName item"] N by (simp add: s1)
    have gf: "(\<lambda>p. p\<lparr>condNamePos := oldName\<rparr>) ` F = A"
      by (force simp: F_def A_def image_iff)
    have "set (policies ?st2) = S"
      unfolding s2 by (rule roundtrip_sets [OF gf disj sub disj2])
    moreover have "roles ?st2 = roles st" by (simp add: renamed_roles)
    ultimately show ?thesis using r2 by (simp add: S_def)
  qed
  then obtain c2 st2 where
    a: "RenameItemACL c1 ?undo (GetName item) = (c2, None)" and
    b: "policyFile c2 = Some st2" and
    s: "set (policies st2) = set (policies st)" and r: "roles st2 = roles st"
    by blast
  have "set (snd (GetItemPolicies c2 oldName (ContainerKind item) (ContainerType item)))
          = set (snd (GetItemPolicies c oldName (ContainerKind item) (ContainerType item)))"
    by (simp add: GetItemPolicies_set [OF b] GetItemPolicies_set [OF f] s)
  with a b s r show ?thesis by blast
qed

theorem RenameItemACL_roundtrip_witness:
  "RenameItemACL (ex_checker ex_store_rename) (ex_named ''c'') ''a''
     = ((ex_checker ex_store_renamed)\<lparr>enforcer := ex_store_renamed\<rparr>, None)
   \<and> (\<exists>c2 st2. RenameItemACL ((ex_checker ex_store_renamed)\<lparr>enforcer := ex_store_renamed\<rparr>)
                   ((ex_named ''c'')\<lparr>GetName := ''a''\<rparr>) ''c'' = (c2, None)
          \<and> policyFile c2 = Some st2
          \<and> set (policies st2) = set (policies ex_store_rename))"
proof -
  have h1: "policyFile (ex_checker ex_store_rename) = Some ex_store_rename" by code_simp
  have h2: "\<forall>p \<in> set (policies ex_store_rename).
              \<not> (condNamePos p = GetName (ex_named ''c'') \<and> condKindPos p = ContainerKind (ex_named ''c'')
                 \<and> condSubkindPos p = ContainerType (ex_named ''c''))"
    by code_simp
  have h3: "RenameItemACL (ex_checker ex_store_rename) (ex_named ''c'') ''a''
              = ((ex_checker ex_store_renamed)\<lparr>enforcer := ex_store_renamed\<rparr>, None)"
    by code_simp
  have n: "GetName (ex_named ''c'') = ''c''" by code_simp
  show ?thesis
    using RenameItemACL_roundtrip [OF h1 h2 h3] h3 unfolding n by blast
qed

text \<open>
  C10. \<open>RemoveItemACL\<close> returns nil and leaves the checker as it was: the in-memory rule
  store and the persisted policy are untouched, for every item and every state.
\<close>

theorem RemoveItemACL_noop:
  "RemoveItemACL c item = (c, None)"
  by (simp add: RemoveItemACL_def)

section \<open>ACL snapshot assembly: the properties\<close>

lemma set_update_cases:
  "(k', v') \<in> set (AList.update k v al) \<Longrightarrow> (k', v') = (k, v) \<or> (k', v') \<in> set al"
  by (induction al) (auto split: if_splits)

lemma HasPrefix_TrimPrefix: "HasPrefix s pre \<Longrightarrow> pre @ TrimPrefix s pre = s"
  by (metis HasPrefix_def TrimPrefix_def append_take_drop_id)

lemma entryOK_mono: "entryOK ps k v \<Longrightarrow> ps \<subseteq> qs \<Longrightarrow> entryOK qs k v"
  unfolding entryOK_def allowActor_def allowGroup_def by blast

lemma assembleStep_deny:
  "condEffectPos p = denyEffect \<Longrightarrow> assembleStep item comparer tmpACL p = tmpACL"
  by (simp add: assembleStep_def Let_def)

lemma assembleStep_OK:
  assumes "\<forall>(k, v) \<in> set tmpACL. entryOK ps k v" and "p \<in> ps"
  shows "\<forall>(k, v) \<in> set (assembleStep item comparer tmpACL p). entryOK ps k v"
proof (cases "comparer item p \<and> condEffectPos p \<noteq> denyEffect")
  case False
  with assms(1) show ?thesis by (auto simp: assembleStep_def Let_def)
next
  case True
  let ?perm = "condPermPos p"
  let ?entry = "case map_of tmpACL ?perm of
                  None \<Rightarrow> \<lparr>Perm = ?perm, Effect = condEffectPos p, Actors = [], Groups = []\<rparr>
                | Some it \<Rightarrow> it"
  have e: "entryOK ps ?perm ?entry"
  proof (cases "map_of tmpACL ?perm")
    case None
    with True show ?thesis by (simp add: entryOK_def)
  next
    case (Some it)
    then have "(?perm, it) \<in> set tmpACL" by (rule map_of_SomeD)
    with assms(1) Some show ?thesis by auto
  qed
  have a: "allowActor ps ?perm (condGroupPos p)"
    using True assms(2) by (auto simp: allowActor_def)
  have g: "HasPrefix (condGroupPos p) ''role##'' \<Longrightarrow> allowGroup ps ?perm (TrimPrefix (condGroupPos p) ''role##'')"
    using True assms(2) HasPrefix_TrimPrefix [of "condGroupPos p" "''role##''"]
    by (auto simp: allowGroup_def)
  have e1: "entryOK ps ?perm (?entry\<lparr>Actors := Actors ?entry @ [condGroupPos p]\<rparr>)"
    using e a by (simp add: entryOK_def)
  have e2: "HasPrefix (condGroupPos p) ''role##'' \<Longrightarrow>
            entryOK ps ?perm (?entry\<lparr>Groups := Groups ?entry @ [TrimPrefix (condGroupPos p) ''role##'']\<rparr>)"
    using e g by (simp add: entryOK_def)
  show ?thesis
  proof (cases "HasPrefix (condGroupPos p) ''role##''")
    case True
    have "assembleStep item comparer tmpACL p
            = AList.update ?perm (?entry\<lparr>Groups := Groups ?entry @ [TrimPrefix (condGroupPos p) ''role##'']\<rparr>) tmpACL"
      using True \<open>comparer item p \<and> condEffectPos p \<noteq> denyEffect\<close> by (simp add: assembleStep_def Let_def)
    with e2 [OF True] assms(1) show ?thesis
      by (auto dest!: set_update_cases)
  next
    case False
    have "assembleStep item comparer tmpACL p
            = AList.update ?perm (?entry\<lparr>Actors := Actors ?entry @ [condGroupPos p]\<rparr>) tmpACL"
      using False True by (simp add: assembleStep_def Let_def)
    with e1 assms(1) show ?thesis
      by (auto dest!: set_update_cases)
  qed
qed

lemma foldl_assembleStep_OK:
  "\<forall>(k, v) \<in> set acc. entryOK ps k v \<Longrightarrow> set xs \<subseteq> ps \<Longrightarrow>
   \<forall>(k, v) \<in> set (foldl (assembleStep item comparer) acc xs). entryOK ps k v"
proof (induction xs arbitrary: acc)
  case Nil
  then show ?case by simp
next
  case (Cons x xs)
  from Cons.prems have "\<forall>(k, v) \<in> set (assembleStep item comparer acc x). entryOK ps k v"
    by (intro assembleStep_OK) auto
  with Cons.IH [of "assembleStep item comparer acc x"] Cons.prems(2) show ?case by simp
qed

lemma assembleACL_OK:
  "(k, v) \<in> set (assembleACL item filtered comparer) \<Longrightarrow> entryOK (set filtered) k v"
  using foldl_assembleStep_OK [of "[]" "set filtered" filtered item comparer]
  by (auto simp: assembleACL_def)

lemma foldl_assembleStep_erase:
  "foldl (assembleStep item comparer) acc (filter (\<lambda>p. condEffectPos p \<noteq> denyEffect) xs)
     = foldl (assembleStep item comparer) acc xs"
  by (induction xs arbitrary: acc) (simp_all add: assembleStep_deny)

lemma overrideGeneral_OK:
  "overrideGeneral itemPerms genPerms = Some merged \<Longrightarrow>
   \<forall>(k, v) \<in> set itemPerms. entryOK ps k v \<Longrightarrow>
   \<forall>(k, v) \<in> set genPerms. entryOK ps k v \<Longrightarrow>
   \<forall>(k, v) \<in> set merged. entryOK ps k v"
proof (induction itemPerms genPerms rule: overrideGeneral.induct)
  case (1 genPerms)
  then show ?case by simp
next
  case (2 k v rest genPerms)
  from "2.prems"(1) obtain g where g: "map_of genPerms k = Some g"
    by (cases "map_of genPerms k") auto
  let ?g' = "g\<lparr>Perm := Perm v, Effect := Effect v,
                Actors := (if Actors v \<noteq> [] then Actors v else Actors g),
                Groups := (if Groups v \<noteq> [] then Groups v else Groups g)\<rparr>"
  from g have "(k, g) \<in> set genPerms" by (rule map_of_SomeD)
  with "2.prems"(3) have og: "entryOK ps k g" by auto
  from "2.prems"(2) have ov: "entryOK ps k v" by auto
  from og ov have "entryOK ps k ?g'" by (simp add: entryOK_def)
  with "2.prems"(3) have inv: "\<forall>(k', v') \<in> set (AList.update k ?g' genPerms). entryOK ps k' v'"
    by (auto dest!: set_update_cases)
  from "2.prems"(1) g have run: "overrideGeneral rest (AList.update k ?g' genPerms) = Some merged"
    by simp
  from "2.prems"(2) have rest: "\<forall>(k, v) \<in> set rest. entryOK ps k v" by simp
  show ?case
    by (rule "2.IH" [OF g run rest inv])
qed

lemma addDefaultUser_OK:
  assumes "entryOK ps k v0"
  shows "Effect (addDefaultUser v0) \<noteq> denyEffect
         \<and> (\<forall>a \<in> set (Actors (addDefaultUser v0)). a = DefaultUser \<or> allowActor ps k a)
         \<and> (\<forall>g \<in> set (Groups (addDefaultUser v0)). allowGroup ps k g)"
  using assms
  by (auto simp: addDefaultUser_def entryOK_def RemoveDupStrings_def StringPresentInSlice_def Let_def)

lemma GetItemACL_ok:
  assumes "GetItemACL c item = (c', Inr acl)"
  shows "\<exists>st gp. policyFile c = Some st \<and> c' = c\<lparr>enforcer := st\<rparr>
           \<and> acl = map (\<lambda>(k, v). (k, addDefaultUser v)) gp
           \<and> (\<forall>(k, v) \<in> set gp. entryOK (set (policies st)) k v)"
proof -
  from assms obtain st where f: "policyFile c = Some st"
    by (cases "policyFile c") (auto simp: GetItemACL_def LoadPolicy_def)
  let ?filteredItem = "GetFilteredPolicy st condNamePos (GetName item)"
  let ?filteredType = "if ContainerKind item = ''groups''
                       then GetFilteredPolicy st condNamePos ''$$default$$''
                       else GetFilteredPolicy st condSubkindPos (ContainerType item)"
  let ?itemPerms = "assembleACL item ?filteredItem itemCompare"
  let ?genPerms = "assembleACL item ?filteredType genCompare"
  let ?merged = "if ContainerKind item = ''containers'' \<and> ContainerType item = ''containers''
                 then Some ?itemPerms else overrideGeneral ?itemPerms ?genPerms"
  have subI: "set ?filteredItem \<subseteq> set (policies st)"
    by (auto simp: GetFilteredPolicy_def)
  have subT: "set ?filteredType \<subseteq> set (policies st)"
    by (auto simp: GetFilteredPolicy_def)
  have okI: "\<forall>(k, v) \<in> set ?itemPerms. entryOK (set (policies st)) k v"
    using assembleACL_OK [of _ _ item ?filteredItem itemCompare] entryOK_mono [OF _ subI] by blast
  have okT: "\<forall>(k, v) \<in> set ?genPerms. entryOK (set (policies st)) k v"
    using assembleACL_OK [of _ _ item ?filteredType genCompare] entryOK_mono [OF _ subT] by blast
  from assms f obtain gp where m: "?merged = Some gp"
    and r: "c' = c\<lparr>enforcer := st\<rparr>" "acl = map (\<lambda>(k, v). (k, addDefaultUser v)) gp"
    by (cases ?merged) (auto simp: GetItemACL_def LoadPolicy_def Let_def split: if_splits)
  have "\<forall>(k, v) \<in> set gp. entryOK (set (policies st)) k v"
  proof (cases "ContainerKind item = ''containers'' \<and> ContainerType item = ''containers''")
    case True
    with m okI show ?thesis by simp
  next
    case False
    with m have "overrideGeneral ?itemPerms ?genPerms = Some gp" by simp
    then show ?thesis by (rule overrideGeneral_OK [OF _ okI okT])
  qed
  with f r show ?thesis by blast
qed

lemma GetFilteredPolicy_withoutDeny:
  "GetFilteredPolicy (withoutDeny st) fieldIndex v
     = filter (\<lambda>p. condEffectPos p \<noteq> denyEffect) (GetFilteredPolicy st fieldIndex v)"
  by (simp add: GetFilteredPolicy_def withoutDeny_def conj_commute)

lemma assembleACL_erase:
  "assembleACL item (filter (\<lambda>p. condEffectPos p \<noteq> denyEffect) filtered) comparer
     = assembleACL item filtered comparer"
  by (simp add: assembleACL_def foldl_assembleStep_erase)

lemma assembleACL_all_deny:
  "filter (\<lambda>p. condEffectPos p \<noteq> denyEffect) filtered = [] \<Longrightarrow> assembleACL item filtered comparer = []"
  using assembleACL_erase [of item filtered comparer] by (simp add: assembleACL_def)

lemma GetItemACL_dropDeny:
  "snd (GetItemACL (dropDeny c) item) = snd (GetItemACL c item)
   \<or> (snd (GetItemACL (dropDeny c) item) = Inl NotFound \<and> snd (GetItemACL c item) = Inr [])"
proof (cases "policyFile c")
  case None
  then show ?thesis by (simp add: GetItemACL_def LoadPolicy_def dropDeny_def)
next
  case (Some st)
  let ?nd = "\<lambda>p. condEffectPos p \<noteq> denyEffect"
  define FI where "FI s = GetFilteredPolicy s condNamePos (GetName item)" for s
  define FT where "FT s = (if ContainerKind item = ''groups''
                           then GetFilteredPolicy s condNamePos ''$$default$$''
                           else GetFilteredPolicy s condSubkindPos (ContainerType item))" for s
  define res where "res xs ys =
      (case (if ContainerKind item = ''containers'' \<and> ContainerType item = ''containers''
             then Some (assembleACL item xs itemCompare)
             else overrideGeneral (assembleACL item xs itemCompare) (assembleACL item ys genCompare)) of
         None \<Rightarrow> Inl Panic
       | Some genPerms' \<Rightarrow> Inr (map (\<lambda>(k, v). (k, addDefaultUser v)) genPerms'))" for xs ys
  have gen: "snd (GetItemACL c0 item)
               = (if FI st0 = [] \<and> FT st0 = [] then Inl NotFound else res (FI st0) (FT st0))"
    if "policyFile c0 = Some st0" for c0 st0
    using that
    by (auto simp: GetItemACL_def LoadPolicy_def Let_def res_def FI_def FT_def split: option.splits)
  have FI': "FI (withoutDeny st) = filter ?nd (FI st)"
    by (simp add: FI_def GetFilteredPolicy_withoutDeny)
  have FT': "FT (withoutDeny st) = filter ?nd (FT st)"
    by (simp add: FT_def GetFilteredPolicy_withoutDeny)
  have res': "res (filter ?nd xs) (filter ?nd ys) = res xs ys" for xs ys
    by (simp add: res_def assembleACL_erase)
  have orig: "snd (GetItemACL c item)
                = (if FI st = [] \<and> FT st = [] then Inl NotFound else res (FI st) (FT st))"
    by (rule gen [OF Some])
  have "policyFile (dropDeny c) = Some (withoutDeny st)"
    using Some by (simp add: dropDeny_def)
  then have drop: "snd (GetItemACL (dropDeny c) item)
                = (if filter ?nd (FI st) = [] \<and> filter ?nd (FT st) = [] then Inl NotFound
                   else res (FI st) (FT st))"
    using gen [of "dropDeny c" "withoutDeny st"] by (simp only: FI' FT' res')
  show ?thesis
  proof (cases "filter ?nd (FI st) = [] \<and> filter ?nd (FT st) = []")
    case False
    then have "\<not> (FI st = [] \<and> FT st = [])" by auto
    with False have "snd (GetItemACL (dropDeny c) item) = snd (GetItemACL c item)"
      unfolding orig drop by auto
    then show ?thesis by (rule disjI1)
  next
    case True
    then have "assembleACL item (FI st) itemCompare = []" "assembleACL item (FT st) genCompare = []"
      by (simp_all add: assembleACL_all_deny)
    then have r: "res (FI st) (FT st) = Inr []" by (simp add: res_def)
    from True have d: "snd (GetItemACL (dropDeny c) item) = Inl NotFound"
      unfolding drop by simp
    show ?thesis
    proof (cases "FI st = [] \<and> FT st = []")
      case True
      then have "snd (GetItemACL c item) = Inl NotFound"
        unfolding orig by simp
      with d show ?thesis by simp
    next
      case False
      then have "snd (GetItemACL c item) = Inr []"
        unfolding orig r by simp
      with d show ?thesis by simp
    qed
  qed
qed

text \<open>
  C9. Tuples of effect \<open>deny\<close> never appear in a snapshot. An interim snapshot, the
  item-specific or the general one, is the snapshot of its tuples with the \<open>deny\<close> ones
  left out. What \<open>GetItemACL\<close> returns is what it returns when every \<open>deny\<close> tuple is
  taken out of the persisted policy; the one difference is that a policy whose tuples
  for the item and its type are all \<open>deny\<close> gives the empty snapshot, and without them
  \<open>NotFound\<close>. In the snapshot returned, no entry has the effect \<open>deny\<close>, every actor of
  the entry of a permission is the default user or the subject of a tuple of that
  permission whose effect is not \<open>deny\<close>, and every group of it is the group of a
  \<open>role##\<close> subject of such a tuple.
\<close>

theorem GetItemACL_no_deny:
  "assembleACL item filtered comparer
     = assembleACL item (filter (\<lambda>p. condEffectPos p \<noteq> denyEffect) filtered) comparer
   \<and> (snd (GetItemACL (dropDeny c) item) = snd (GetItemACL c item)
      \<or> (snd (GetItemACL (dropDeny c) item) = Inl NotFound \<and> snd (GetItemACL c item) = Inr []))
   \<and> (GetItemACL c item = (c', Inr acl) \<and> (k, v) \<in> set acl \<longrightarrow>
        policyFile c = Some (enforcer c')
        \<and> Effect v \<noteq> denyEffect
        \<and> (\<forall>a \<in> set (Actors v). a = DefaultUser \<or> allowActor (set (policies (enforcer c'))) k a)
        \<and> (\<forall>g \<in> set (Groups v). allowGroup (set (policies (enforcer c'))) k g))"
proof (intro conjI impI)
  show "assembleACL item filtered comparer
     = assembleACL item (filter (\<lambda>p. condEffectPos p \<noteq> denyEffect) filtered) comparer"
    by (simp add: assembleACL_erase)
next
  show "snd (GetItemACL (dropDeny c) item) = snd (GetItemACL c item)
      \<or> (snd (GetItemACL (dropDeny c) item) = Inl NotFound \<and> snd (GetItemACL c item) = Inr [])"
    by (rule GetItemACL_dropDeny)
next
  assume a: "GetItemACL c item = (c', Inr acl) \<and> (k, v) \<in> set acl"
  then obtain st gp where f: "policyFile c = Some st" and c': "c' = c\<lparr>enforcer := st\<rparr>"
    and acl: "acl = map (\<lambda>(k, v). (k, addDefaultUser v)) gp"
    and ok: "\<forall>(k, v) \<in> set gp. entryOK (set (policies st)) k v"
    using GetItemACL_ok [of c item c' acl] by blast
  from a acl obtain v0 where v0: "(k, v0) \<in> set gp" and v: "v = addDefaultUser v0"
    by auto
  from ok v0 have e: "entryOK (set (policies st)) k v0" by auto
  have st: "enforcer c' = st" using c' by simp
  show "policyFile c = Some (enforcer c')" using f st by simp
  show "Effect v \<noteq> denyEffect"
    using addDefaultUser_OK [OF e] v by simp
  show "\<forall>a \<in> set (Actors v). a = DefaultUser \<or> allowActor (set (policies (enforcer c'))) k a"
    using addDefaultUser_OK [OF e] v st by simp
  show "\<forall>g \<in> set (Groups v). allowGroup (set (policies (enforcer c'))) k g"
    using addDefaultUser_OK [OF e] v st by simp
qed

text \<open>In the store of the witness bob is denied \<open>read\<close> on the item and allowed it on
  another node, and the role \<open>banned\<close> is denied it on the type. The snapshot of the
  item is the one of the store without the two \<open>deny\<close> tuples.\<close>

theorem GetItemACL_no_deny_witness:
  "snd (GetItemACL (ex_checker ex_store_deny) ex_node) = Inr [(''read'', ex_read_entry)]
   \<and> snd (GetItemACL (dropDeny (ex_checker ex_store_deny)) ex_node) = Inr [(''read'', ex_read_entry)]
   \<and> policyFile (dropDeny (ex_checker ex_store_deny)) = Some ex_store_nodeny
   \<and> allowActor (set (policies ex_store_deny)) ''read'' ''alice''
   \<and> allowGroup (set (policies ex_store_deny)) ''read'' ''ops''"
proof -
  let ?c = "ex_checker ex_store_deny"
  let ?c' = "(ex_checker ex_store_deny)\<lparr>enforcer := ex_store_deny\<rparr>"
  have h: "GetItemACL ?c ex_node = (?c', Inr [(''read'', ex_read_entry)])"
    by code_simp
  have m: "(''read'', ex_read_entry) \<in> set [(''read'', ex_read_entry)]" by simp
  have st: "enforcer ?c' = ex_store_deny" by simp
  have p: "policyFile (dropDeny ?c) = Some ex_store_nodeny" by code_simp
  note t = GetItemACL_no_deny [of ex_node "[]" itemCompare ?c ?c'
                                  "[(''read'', ex_read_entry)]" "''read''" ex_read_entry]
  from t h have d: "snd (GetItemACL (dropDeny ?c) ex_node) = Inr [(''read'', ex_read_entry)]"
    by auto
  from t h m
  have a: "\<forall>a \<in> set (Actors ex_read_entry). a = DefaultUser \<or> allowActor (set (policies (enforcer ?c'))) ''read'' a"
    and g: "\<forall>g \<in> set (Groups ex_read_entry). allowGroup (set (policies (enforcer ?c'))) ''read'' g"
    by blast+
  from a have "allowActor (set (policies ex_store_deny)) ''read'' ''alice''"
    unfolding st by (simp add: ex_read_entry_def)
  moreover from g have "allowGroup (set (policies ex_store_deny)) ''read'' ''ops''"
    unfolding st by (simp add: ex_read_entry_def)
  ultimately show ?thesis using h d p by simp
qed

end
